theory Spec2Isabelle
  imports Main
begin

section \<open>Schema objects\<close>

text \<open>
  The migration \<^verbatim>\<open>0047_3_0_0_add_dag_versioning.py\<close> is a sequence of calls on Alembic's
  \<^verbatim>\<open>op\<close> object. The calls are data here (one constructor per method, with the arguments
  the source passes), and a database is the list of its tables: every table carries its
  columns, its constraints, its indexes and its rows.
\<close>

text \<open>\<^verbatim>\<open>ID_LEN\<close> is imported from \<^verbatim>\<open>airflow.models.base\<close>; it stays symbolic.\<close>

datatype length = Lit nat | ID_LEN

datatype sqltype =
    BigInteger
  | Integer
  | String length
  | StringID
  | Text
  | MEDIUMTEXT
  | with_variant sqltype sqltype string
  | UtcDateTime
  | JSONField
  | LargeBinary
  | UUIDType bool

text \<open>\<^verbatim>\<open>sa.BIGINT\<close> is the SQL spelling of \<^verbatim>\<open>sa.BigInteger\<close>: one column type.\<close>

definition BIGINT :: sqltype where
  "BIGINT = BigInteger"

datatype callable = utcnow

record column =
  c_name :: string
  c_type :: sqltype
  c_nullable :: bool
  c_primary_key :: bool
  c_autoincrement :: "bool option"
  c_default :: "callable option"
  c_onupdate :: "callable option"

text \<open>
  \<^verbatim>\<open>sa.Column(name, type, nullable=..., primary_key=...)\<close>: a column whose
  \<^verbatim>\<open>nullable\<close> is not given is nullable unless it is part of the primary key.
\<close>

definition Column :: "string \<Rightarrow> sqltype \<Rightarrow> bool option \<Rightarrow> bool \<Rightarrow> column" where
  "Column n ty nullable pk =
     \<lparr>c_name = n, c_type = ty,
      c_nullable = (case nullable of Some b \<Rightarrow> b | None \<Rightarrow> \<not> pk),
      c_primary_key = pk, c_autoincrement = None, c_default = None, c_onupdate = None\<rparr>"

datatype ondelete = CASCADE | NO_ACTION

datatype constraint =
    PrimaryKeyConstraint string "string list"
  | ForeignKeyConstraint string "string list" string "string list" ondelete
  | UniqueConstraint string "string list"

record index =
  i_name :: string
  i_columns :: "string list"
  i_unique :: bool

datatype val = I int | S string

type_synonym row = "(string \<times> val option) list"

record table =
  t_name :: string
  t_columns :: "column list"
  t_constraints :: "constraint list"
  t_indexes :: "index list"
  t_rows :: "row list"

type_synonym database = "table list"

datatype error =
    NoSuchTable string
  | TableExists string
  | NoSuchColumn string
  | DuplicateColumn string
  | NoSuchConstraint string
  | NoSuchIndex string
  | MultiplePrimaryKeys string
  | DependentObjects string
  | NotNullViolation string
  | UniqueViolation string
  | ForeignKeyViolation string
  | NoUniqueKey string

subsection \<open>Reading tables\<close>

definition get_table :: "database \<Rightarrow> string \<Rightarrow> table option" where
  "get_table db n = find (\<lambda>t. t_name t = n) db"

definition put_table :: "table \<Rightarrow> database \<Rightarrow> database" where
  "put_table t db = map (\<lambda>u. if t_name u = t_name t then t else u) db"

definition colnames :: "table \<Rightarrow> string list" where
  "colnames t = map c_name (t_columns t)"

definition get_column :: "table \<Rightarrow> string \<Rightarrow> column option" where
  "get_column t n = find (\<lambda>c. c_name c = n) (t_columns t)"

text \<open>The value of a row in a column; a column the row does not list is NULL.\<close>

definition cell :: "row \<Rightarrow> string \<Rightarrow> val option" where
  "cell r c = (case map_of r c of Some v \<Rightarrow> v | None \<Rightarrow> None)"

definition cells :: "row \<Rightarrow> string list \<Rightarrow> val option list" where
  "cells r cs = map (cell r) cs"

fun constraint_name :: "constraint \<Rightarrow> string" where
  "constraint_name (PrimaryKeyConstraint n cs) = n"
| "constraint_name (ForeignKeyConstraint n cs rt rcs od) = n"
| "constraint_name (UniqueConstraint n cs) = n"

fun constraint_columns :: "constraint \<Rightarrow> string list" where
  "constraint_columns (PrimaryKeyConstraint n cs) = cs"
| "constraint_columns (ForeignKeyConstraint n cs rt rcs od) = cs"
| "constraint_columns (UniqueConstraint n cs) = cs"

fun is_primary :: "constraint \<Rightarrow> bool" where
  "is_primary (PrimaryKeyConstraint n cs) = True"
| "is_primary _ = False"

fun is_foreign :: "constraint \<Rightarrow> bool" where
  "is_foreign (ForeignKeyConstraint n cs rt rcs od) = True"
| "is_foreign _ = False"

fun is_unique :: "constraint \<Rightarrow> bool" where
  "is_unique (UniqueConstraint n cs) = True"
| "is_unique _ = False"

text \<open>The tables a constraint points to (a foreign key points to one, the others to none).\<close>

fun references_table :: "constraint \<Rightarrow> string \<Rightarrow> bool" where
  "references_table (ForeignKeyConstraint n cs rt rcs od) tn = (rt = tn)"
| "references_table _ tn = False"

definition primary_key :: "table \<Rightarrow> string list" where
  "primary_key t = concat (map constraint_columns (filter is_primary (t_constraints t)))"

definition foreign_keys :: "table \<Rightarrow> constraint list" where
  "foreign_keys t = filter is_foreign (t_constraints t)"

text \<open>
  The key names come from \<^verbatim>\<open>naming_convention\<close> of \<^verbatim>\<open>airflow.models.base\<close>; the migration
  itself spells them \<^verbatim>\<open>dag_code_pkey\<close>, \<^verbatim>\<open>serialized_dag_pkey\<close> and \<^verbatim>\<open>dag_version_pkey\<close>.
\<close>

definition pk_name :: "string \<Rightarrow> string" where
  "pk_name tn = tn @ ''_pkey''"

text \<open>
  \<^verbatim>\<open>Table(name, MetaData(naming_convention), columns..., indexes...)\<close>: the columns
  flagged \<^verbatim>\<open>primary_key=True\<close> make the primary key of the table; the description has no rows.
\<close>

definition Table :: "string \<Rightarrow> column list \<Rightarrow> index list \<Rightarrow> table" where
  "Table n cols idxs =
     \<lparr>t_name = n, t_columns = cols,
      t_constraints =
        (let pk = map c_name (filter c_primary_key cols)
         in if pk = [] then [] else [PrimaryKeyConstraint (pk_name n) pk]),
      t_indexes = idxs, t_rows = []\<rparr>"

subsection \<open>Rows and the declared constraints\<close>

text \<open>
  A row \<open>r\<close> of a child table references the row \<open>p\<close> of table \<open>tn\<close> through a foreign
  key when the key points to \<open>tn\<close>, none of its columns is NULL in \<open>r\<close>, and the values
  agree with the referenced columns of \<open>p\<close>.
\<close>

fun fk_refs :: "constraint \<Rightarrow> row \<Rightarrow> string \<Rightarrow> row \<Rightarrow> bool" where
  "fk_refs (ForeignKeyConstraint n cs rt rcs od) r tn p =
     (rt = tn \<and> None \<notin> set (cells r cs) \<and> cells r cs = cells p rcs)"
| "fk_refs _ r tn p = False"

fun is_cascade :: "constraint \<Rightarrow> bool" where
  "is_cascade (ForeignKeyConstraint n cs rt rcs od) = (od = CASCADE)"
| "is_cascade _ = False"

text \<open>Rows agree with a uniqueness over \<open>cs\<close>: no two of them carry the same non-NULL values.\<close>

definition unique_rows :: "string list \<Rightarrow> row list \<Rightarrow> bool" where
  "unique_rows cs rs = distinct (filter (\<lambda>vs. None \<notin> set vs) (map (\<lambda>r. cells r cs) rs))"

definition no_nulls :: "string list \<Rightarrow> row list \<Rightarrow> bool" where
  "no_nulls cs rs = (\<forall>r \<in> set rs. None \<notin> set (cells r cs))"

definition rows_of :: "database \<Rightarrow> string \<Rightarrow> row list" where
  "rows_of db n = (case get_table db n of None \<Rightarrow> [] | Some t \<Rightarrow> t_rows t)"

text \<open>A row satisfies a foreign key when the key has a NULL in it or the parent row exists.\<close>

fun fk_satisfied :: "database \<Rightarrow> constraint \<Rightarrow> row \<Rightarrow> bool" where
  "fk_satisfied db (ForeignKeyConstraint n cs rt rcs od) r =
     (None \<in> set (cells r cs) \<or> (\<exists>p \<in> set (rows_of db rt). cells r cs = cells p rcs))"
| "fk_satisfied db _ r = True"

section \<open>Row statements\<close>

text \<open>
  The statements a connection runs on rows. \<^verbatim>\<open>DELETE FROM t\<close> is the only one the
  migration issues (through \<^verbatim>\<open>op.execute(sa.text(...))\<close>); the delete of the rows with one
  value in one column and the insert of a row are the statements of the running system
  that the declared constraints are there for.
\<close>

datatype sql =
    DELETE_FROM string
  | DELETE_FROM_WHERE string string val
  | INSERT_INTO string row

subsection \<open>Delete, with ON DELETE CASCADE\<close>

text \<open>
  Rows are identified by the table they are in and their content. Given the rows \<open>m\<close>
  already due for deletion, \<open>cascades\<close> lists the rows that reference one of them through
  a foreign key declared ON DELETE CASCADE; \<open>cascade\<close> repeats this until nothing new turns up.
\<close>

definition all_rows :: "database \<Rightarrow> (string \<times> row) list" where
  "all_rows db = concat (map (\<lambda>t. map (Pair (t_name t)) (t_rows t)) db)"

definition cascades :: "database \<Rightarrow> (string \<times> row) list \<Rightarrow> (string \<times> row) list" where
  "cascades db m =
     filter (\<lambda>(cn, r). \<exists>c \<in> set db. t_name c = cn \<and> r \<in> set (t_rows c) \<and>
                (\<exists>k \<in> set (t_constraints c). is_cascade k \<and>
                   (\<exists>(tn, p) \<in> set m. fk_refs k r tn p)))
            (all_rows db)"

function cascade :: "database \<Rightarrow> (string \<times> row) list \<Rightarrow> (string \<times> row) list" where
  "cascade db m =
     (let new = filter (\<lambda>x. x \<notin> set m) (cascades db m)
      in if new = [] then m else cascade db (m @ new))"
  by pat_completeness auto

termination cascade
proof (relation "measure (\<lambda>(db, m). card (set (all_rows db) - set m))")
  show "wf (measure (\<lambda>(db, m). card (set (all_rows db) - set m)))"
    by simp
next
  fix db :: database and m new :: "(string \<times> row) list"
  assume new: "new = filter (\<lambda>x. x \<notin> set m) (cascades db m)" and ne: "new \<noteq> []"
  from ne obtain x where x: "x \<in> set new"
    by (cases new) auto
  have "set (cascades db m) \<subseteq> set (all_rows db)"
    by (auto simp: cascades_def)
  with x new have xin: "x \<in> set (all_rows db) - set m"
    by auto
  have "set (all_rows db) - set (m @ new) \<subset> set (all_rows db) - set m"
    using x xin by auto
  then have "card (set (all_rows db) - set (m @ new)) < card (set (all_rows db) - set m)"
    by (intro psubset_card_mono) auto
  then show "((db, m @ new), (db, m)) \<in> measure (\<lambda>(db, m). card (set (all_rows db) - set m))"
    by simp
qed

declare cascade.simps [simp del]

text \<open>
  A foreign key that is not ON DELETE CASCADE refuses the delete of a row that a remaining
  row still references.
\<close>

definition refused :: "database \<Rightarrow> (string \<times> row) list \<Rightarrow> bool" where
  "refused db m =
     (\<exists>c \<in> set db. \<exists>r \<in> set (t_rows c). (t_name c, r) \<notin> set m \<and>
        (\<exists>k \<in> set (t_constraints c). \<exists>(tn, p) \<in> set m. fk_refs k r tn p))"

definition remove_rows :: "(string \<times> row) list \<Rightarrow> database \<Rightarrow> database" where
  "remove_rows m db =
     map (\<lambda>c. c\<lparr>t_rows := filter (\<lambda>r. (t_name c, r) \<notin> set m) (t_rows c)\<rparr>) db"

definition delete_rows :: "string \<Rightarrow> (row \<Rightarrow> bool) \<Rightarrow> database \<Rightarrow> error + database" where
  "delete_rows tn P db =
     (case get_table db tn of
        None \<Rightarrow> Inl (NoSuchTable tn)
      | Some t \<Rightarrow>
          (let m = cascade db (map (Pair tn) (filter P (t_rows t)))
           in if refused db m then Inl (ForeignKeyViolation tn) else Inr (remove_rows m db)))"

subsection \<open>Insert, with the declared constraints enforced\<close>

fun row_violation :: "database \<Rightarrow> table \<Rightarrow> row \<Rightarrow> constraint \<Rightarrow> error option" where
  "row_violation db t r (PrimaryKeyConstraint n cs) =
     (if None \<in> set (cells r cs) then Some (NotNullViolation n)
      else if cells r cs \<in> set (map (\<lambda>q. cells q cs) (t_rows t)) then Some (UniqueViolation n)
      else None)"
| "row_violation db t r (UniqueConstraint n cs) =
     (if None \<notin> set (cells r cs) \<and> cells r cs \<in> set (map (\<lambda>q. cells q cs) (t_rows t))
      then Some (UniqueViolation n) else None)"
| "row_violation db t r (ForeignKeyConstraint n cs rt rcs od) =
     (if fk_satisfied db (ForeignKeyConstraint n cs rt rcs od) r then None
      else Some (ForeignKeyViolation n))"

fun first_error :: "error option list \<Rightarrow> error option" where
  "first_error [] = None"
| "first_error (None # es) = first_error es"
| "first_error (Some e # es) = Some e"

definition null_violation :: "table \<Rightarrow> row \<Rightarrow> error option" where
  "null_violation t r =
     first_error (map (\<lambda>c. if \<not> c_nullable c \<and> cell r (c_name c) = None
                           then Some (NotNullViolation (c_name c)) else None) (t_columns t))"

definition insert_row :: "string \<Rightarrow> row \<Rightarrow> database \<Rightarrow> error + database" where
  "insert_row tn r db =
     (case get_table db tn of
        None \<Rightarrow> Inl (NoSuchTable tn)
      | Some t \<Rightarrow>
          (case first_error (null_violation t r # map (row_violation db t r) (t_constraints t)) of
             Some e \<Rightarrow> Inl e
           | None \<Rightarrow> Inr (put_table (t\<lparr>t_rows := t_rows t @ [r]\<rparr>) db)))"

fun execute_sql :: "sql \<Rightarrow> database \<Rightarrow> error + database" where
  "execute_sql (DELETE_FROM tn) db = delete_rows tn (\<lambda>r. True) db"
| "execute_sql (DELETE_FROM_WHERE tn c v) db = delete_rows tn (\<lambda>r. cell r c = Some v) db"
| "execute_sql (INSERT_INTO tn r) db = insert_row tn r db"

fun execute_all :: "sql list \<Rightarrow> database \<Rightarrow> error + database" where
  "execute_all [] db = Inr db"
| "execute_all (q # qs) db =
     (case execute_sql q db of Inl e \<Rightarrow> Inl e | Inr db' \<Rightarrow> execute_all qs db')"

section \<open>Alembic operations\<close>

datatype constraint_type = primary | foreignkey | unique

text \<open>The methods of \<^verbatim>\<open>batch_op\<close> inside a \<^verbatim>\<open>with op.batch_alter_table(...)\<close> block.\<close>

datatype batch_operation =
    drop_constraint string constraint_type
  | add_column column "string option"
  | create_primary_key string "string list"
  | create_foreign_key string string "string list" "string list" ondelete
  | create_unique_constraint string "string list"
  | drop_column string
  | alter_column string "bool option" "callable option"
  | drop_index string
  | create_index string "string list" bool

text \<open>
  The calls on \<^verbatim>\<open>op\<close>. The second argument of \<open>batch_alter_table\<close> is \<open>Some s\<close> for
  \<^verbatim>\<open>recreate="always", copy_from=s\<close> (the table is built again from the description \<open>s\<close>
  and the existing rows are copied over) and \<open>None\<close> for \<^verbatim>\<open>schema=None\<close> (the table is
  altered as the database has it).
\<close>

datatype operation =
    execute sql
  | create_table string "column list" "constraint list"
  | batch_alter_table string "table option" "batch_operation list"
  | drop_table string

text \<open>\<^verbatim>\<open>op.f(name)\<close> marks a name as final: the naming convention is not applied to it again.\<close>

definition op_f :: "string \<Rightarrow> string" where
  "op_f n = n"

subsection \<open>The effect of one batch operation on a table\<close>

fun has_type :: "constraint_type \<Rightarrow> constraint \<Rightarrow> bool" where
  "has_type primary k = is_primary k"
| "has_type foreignkey k = is_foreign k"
| "has_type unique k = is_unique k"

definition set_primary_flag :: "bool \<Rightarrow> string list \<Rightarrow> column list \<Rightarrow> column list" where
  "set_primary_flag b cs cols =
     map (\<lambda>c. if c_name c \<in> set cs then c\<lparr>c_primary_key := b\<rparr> else c) cols"

text \<open>
  \<^verbatim>\<open>insert_before\<close> asks for a position in the list of columns. Where Alembic finally puts
  a column added before one that the same batch drops is not modelled: columns are read by
  name, never by position.
\<close>

fun insert_before :: "column \<Rightarrow> string \<Rightarrow> column list \<Rightarrow> column list" where
  "insert_before c n [] = [c]"
| "insert_before c n (d # ds) = (if c_name d = n then c # d # ds else d # insert_before c n ds)"

definition place_column :: "column \<Rightarrow> string option \<Rightarrow> column list \<Rightarrow> column list" where
  "place_column c ib cols =
     (case ib of None \<Rightarrow> cols @ [c] | Some n \<Rightarrow> insert_before c n cols)"

definition has_columns :: "table \<Rightarrow> string list \<Rightarrow> bool" where
  "has_columns t cs = (set cs \<subseteq> set (colnames t))"

text \<open>
  A foreign key may only point to columns that a primary key, a uniqueness constraint or a
  unique index of the referenced table covers.
\<close>

definition is_key :: "table \<Rightarrow> string list \<Rightarrow> bool" where
  "is_key t cs \<longleftrightarrow>
     (\<exists>k \<in> set (t_constraints t).
        (is_primary k \<or> is_unique k) \<and> set (constraint_columns k) = set cs) \<or>
     (\<exists>i \<in> set (t_indexes t). i_unique i \<and> set (i_columns i) = set cs)"

definition missing_column :: "table \<Rightarrow> string list \<Rightarrow> string" where
  "missing_column t cs = (case filter (\<lambda>c. c \<notin> set (colnames t)) cs of [] \<Rightarrow> [] | c # _ \<Rightarrow> c)"

fun batch_apply :: "database \<Rightarrow> batch_operation \<Rightarrow> table \<Rightarrow> error + table" where
  "batch_apply db (drop_constraint n ty) t =
     (case filter (\<lambda>k. constraint_name k = n \<and> has_type ty k) (t_constraints t) of
        [] \<Rightarrow> Inl (NoSuchConstraint n)
      | k # _ \<Rightarrow>
          Inr (t\<lparr>t_constraints :=
                   filter (\<lambda>k. \<not> (constraint_name k = n \<and> has_type ty k)) (t_constraints t),
                 t_columns :=
                   (if ty = primary then set_primary_flag False (constraint_columns k) (t_columns t)
                    else t_columns t)\<rparr>))"
| "batch_apply db (add_column c ib) t =
     (if c_name c \<in> set (colnames t) then Inl (DuplicateColumn (c_name c))
      else if \<not> c_nullable c \<and> t_rows t \<noteq> [] then Inl (NotNullViolation (c_name c))
      else Inr (t\<lparr>t_columns := place_column c ib (t_columns t),
                  t_rows := map (\<lambda>r. (c_name c, None) # r) (t_rows t)\<rparr>))"
| "batch_apply db (create_primary_key n cs) t =
     (if \<not> has_columns t cs then Inl (NoSuchColumn (missing_column t cs))
      else if filter is_primary (t_constraints t) \<noteq> [] then Inl (MultiplePrimaryKeys (t_name t))
      else if \<not> no_nulls cs (t_rows t) then Inl (NotNullViolation n)
      else if \<not> unique_rows cs (t_rows t) then Inl (UniqueViolation n)
      else Inr (t\<lparr>t_constraints := t_constraints t @ [PrimaryKeyConstraint n cs],
                  t_columns := set_primary_flag True cs (t_columns t)\<rparr>))"
| "batch_apply db (create_foreign_key n rt cs rcs od) t =
     (if \<not> has_columns t cs then Inl (NoSuchColumn (missing_column t cs))
      else case get_table db rt of
        None \<Rightarrow> Inl (NoSuchTable rt)
      | Some p \<Rightarrow>
          if \<not> has_columns p rcs then Inl (NoSuchColumn (missing_column p rcs))
          else if \<not> is_key p rcs then Inl (NoUniqueKey rt)
          else if \<not> (\<forall>r \<in> set (t_rows t). fk_satisfied db (ForeignKeyConstraint n cs rt rcs od) r)
          then Inl (ForeignKeyViolation n)
          else Inr (t\<lparr>t_constraints := t_constraints t @ [ForeignKeyConstraint n cs rt rcs od]\<rparr>))"
| "batch_apply db (create_unique_constraint n cs) t =
     (if \<not> has_columns t cs then Inl (NoSuchColumn (missing_column t cs))
      else if \<not> unique_rows cs (t_rows t) then Inl (UniqueViolation n)
      else Inr (t\<lparr>t_constraints := t_constraints t @ [UniqueConstraint n cs]\<rparr>))"
| "batch_apply db (drop_column n) t =
     (if n \<notin> set (colnames t) then Inl (NoSuchColumn n)
      else Inr (t\<lparr>t_columns := filter (\<lambda>c. c_name c \<noteq> n) (t_columns t),
                  t_constraints := filter (\<lambda>k. n \<notin> set (constraint_columns k)) (t_constraints t),
                  t_indexes := filter (\<lambda>i. n \<notin> set (i_columns i)) (t_indexes t),
                  t_rows := map (filter (\<lambda>(k, v). k \<noteq> n)) (t_rows t)\<rparr>))"
| "batch_apply db (alter_column n nullable onupd) t =
     (if n \<notin> set (colnames t) then Inl (NoSuchColumn n)
      else if nullable = Some False \<and> \<not> no_nulls [n] (t_rows t) then Inl (NotNullViolation n)
      else Inr (t\<lparr>t_columns :=
                    map (\<lambda>c. if c_name c = n
                              then c\<lparr>c_nullable := (case nullable of None \<Rightarrow> c_nullable c | Some b \<Rightarrow> b),
                                     c_onupdate := (case onupd of None \<Rightarrow> c_onupdate c | Some g \<Rightarrow> Some g)\<rparr>
                              else c) (t_columns t)\<rparr>))"
| "batch_apply db (drop_index n) t =
     (if n \<notin> set (map i_name (t_indexes t)) then Inl (NoSuchIndex n)
      else Inr (t\<lparr>t_indexes := filter (\<lambda>i. i_name i \<noteq> n) (t_indexes t)\<rparr>))"
| "batch_apply db (create_index n cs u) t =
     (if \<not> has_columns t cs then Inl (NoSuchColumn (missing_column t cs))
      else if u \<and> \<not> unique_rows cs (t_rows t) then Inl (UniqueViolation n)
      else Inr (t\<lparr>t_indexes := t_indexes t @ [\<lparr>i_name = n, i_columns = cs, i_unique = u\<rparr>]\<rparr>))"

fun batch_run :: "database \<Rightarrow> batch_operation list \<Rightarrow> table \<Rightarrow> error + table" where
  "batch_run db [] t = Inr t"
| "batch_run db (b # bs) t =
     (case batch_apply db b t of Inl e \<Rightarrow> Inl e | Inr t' \<Rightarrow> batch_run db bs t')"

subsection \<open>The effect of one operation on the database\<close>

text \<open>
  With \<^verbatim>\<open>copy_from\<close>, the table is built again from the description \<open>s\<close>, not from what
  the database holds: the described columns are read from the existing table \<open>t\<close> and the
  described named constraints are dropped from it. The call raises when the existing table
  lacks a described column or a constraint of a described name.
\<close>

definition description_error :: "table \<Rightarrow> table \<Rightarrow> error option" where
  "description_error s t =
     (case filter (\<lambda>c. c \<notin> set (colnames t)) (colnames s) of
        c # _ \<Rightarrow> Some (NoSuchColumn c)
      | [] \<Rightarrow>
          (case filter (\<lambda>n. n \<notin> set (map constraint_name (t_constraints t)))
                  (map constraint_name (t_constraints s)) of
             n # _ \<Rightarrow> Some (NoSuchConstraint n)
           | [] \<Rightarrow> None))"

text \<open>
  Otherwise the new table has the described shape and the rows of the existing table, each
  cut down to the described columns.
\<close>

definition copy_rows :: "table \<Rightarrow> table \<Rightarrow> table" where
  "copy_rows s t =
     s\<lparr>t_rows := map (filter (\<lambda>(k, v). k \<in> set (colnames s))) (t_rows t)\<rparr>"

fun fk_target_missing :: "database \<Rightarrow> constraint \<Rightarrow> bool" where
  "fk_target_missing db (ForeignKeyConstraint n cs rt rcs od) =
     (case get_table db rt of None \<Rightarrow> True
      | Some p \<Rightarrow> \<not> has_columns p rcs \<or> \<not> is_key p rcs)"
| "fk_target_missing db _ = False"

fun apply_operation :: "operation \<Rightarrow> database \<Rightarrow> error + database" where
  "apply_operation (execute q) db = execute_sql q db"
| "apply_operation (create_table n cols ks) db =
     (if get_table db n \<noteq> None then Inl (TableExists n)
      else if \<not> (\<forall>k \<in> set ks. set (constraint_columns k) \<subseteq> set (map c_name cols))
      then Inl (NoSuchColumn n)
      else if \<exists>k \<in> set ks. fk_target_missing db k then Inl (NoSuchTable n)
      else Inr (db @ [\<lparr>t_name = n,
                       t_columns = set_primary_flag True
                                     (concat (map constraint_columns (filter is_primary ks))) cols,
                       t_constraints = ks, t_indexes = [], t_rows = []\<rparr>]))"
| "apply_operation (batch_alter_table n copy_from bs) db =
     (case get_table db n of
        None \<Rightarrow> Inl (NoSuchTable n)
      | Some t \<Rightarrow>
          (case (case copy_from of None \<Rightarrow> None | Some s \<Rightarrow> description_error s t) of
             Some e \<Rightarrow> Inl e
           | None \<Rightarrow>
               (case batch_run db bs
                       (case copy_from of None \<Rightarrow> t | Some s \<Rightarrow> copy_rows s t) of
                  Inl e \<Rightarrow> Inl e
                | Inr t' \<Rightarrow> Inr (put_table t' db))))"
| "apply_operation (drop_table n) db =
     (if get_table db n = None then Inl (NoSuchTable n)
      else if \<exists>c \<in> set db. t_name c \<noteq> n \<and> (\<exists>k \<in> set (t_constraints c). references_table k n)
      then Inl (DependentObjects n)
      else Inr (filter (\<lambda>t. t_name t \<noteq> n) db))"

fun run :: "operation list \<Rightarrow> database \<Rightarrow> error + database" where
  "run [] db = Inr db"
| "run (x # xs) db =
     (case apply_operation x db of Inl e \<Rightarrow> Inl e | Inr db' \<Rightarrow> run xs db')"

section \<open>The migration\<close>

definition delete_serdag_and_code :: "operation list" where
  "delete_serdag_and_code =
     [execute (DELETE_FROM ''serialized_dag''),
      execute (DELETE_FROM ''dag_code'')]"

text \<open>
  The two descriptions below are what \<^verbatim>\<open>copy_from\<close> receives: the tables as they are before
  the migration.
\<close>

definition old_dagcode_table :: table where
  "old_dagcode_table =
     Table ''dag_code''
       [Column ''fileloc_hash'' BigInteger (Some False) True,
        Column ''fileloc'' (String (Lit 2000)) (Some False) False,
        Column ''last_updated'' UtcDateTime (Some False) False,
        Column ''source_code'' (with_variant Text MEDIUMTEXT ''mysql'') (Some False) False]
       []"

definition old_serialized_table :: table where
  "old_serialized_table =
     Table ''serialized_dag''
       [Column ''dag_id'' (String ID_LEN) (Some False) True,
        Column ''fileloc'' (String (Lit 2000)) (Some False) False,
        Column ''fileloc_hash'' BigInteger (Some False) False,
        Column ''data'' JSONField (Some True) False,
        Column ''data_compressed'' LargeBinary (Some True) False,
        Column ''dag_hash'' (String (Lit 32)) (Some False) False,
        Column ''last_updated'' UtcDateTime (Some False) False,
        Column ''processor_subdir'' (String (Lit 2000)) None False]
       [\<lparr>i_name = ''idx_fileloc_hash'', i_columns = [''fileloc_hash''], i_unique = False\<rparr>]"

text \<open>The blocks of \<^verbatim>\<open>upgrade()\<close>, in the order of the source.\<close>

definition create_dag_version :: operation where
  "create_dag_version =
     create_table ''dag_version''
       [Column ''id'' (UUIDType False) (Some False) False,
        Column ''version_number'' Integer (Some False) False,
        Column ''dag_id'' StringID (Some False) False,
        (Column ''created_at'' UtcDateTime (Some False) False)\<lparr>c_default := Some utcnow\<rparr>,
        (Column ''last_updated'' UtcDateTime (Some False) False)
          \<lparr>c_default := Some utcnow, c_onupdate := Some utcnow\<rparr>]
       [ForeignKeyConstraint (op_f ''dag_version_dag_id_fkey'') [''dag_id''] ''dag'' [''dag_id'']
          CASCADE,
        PrimaryKeyConstraint (op_f ''dag_version_pkey'') [''id''],
        UniqueConstraint ''dag_id_v_name_v_number_unique_constraint''
          [''dag_id'', ''version_number'']]"

definition upgrade_dag_code :: operation where
  "upgrade_dag_code =
     batch_alter_table ''dag_code'' (Some old_dagcode_table)
       [drop_constraint ''dag_code_pkey'' primary,
        add_column (Column ''id'' (UUIDType False) None True) (Some ''fileloc_hash''),
        create_primary_key ''dag_code_pkey'' [''id''],
        add_column (Column ''dag_version_id'' (UUIDType False) (Some False) False) None,
        create_foreign_key (op_f ''dag_code_dag_version_id_fkey'') ''dag_version''
          [''dag_version_id''] [''id''] CASCADE,
        create_unique_constraint ''dag_code_dag_version_id_uq'' [''dag_version_id''],
        add_column (Column ''source_code_hash'' (String (Lit 32)) (Some False) False) None,
        drop_column ''fileloc_hash'',
        add_column (Column ''dag_id'' (String (Lit 250)) (Some False) False) None,
        add_column
          ((Column ''created_at'' UtcDateTime (Some False) False)\<lparr>c_default := Some utcnow\<rparr>)
          None,
        alter_column ''last_updated'' (Some False) (Some utcnow)]"

definition upgrade_serialized_dag :: operation where
  "upgrade_serialized_dag =
     batch_alter_table ''serialized_dag'' (Some old_serialized_table)
       [drop_constraint ''serialized_dag_pkey'' primary,
        add_column (Column ''id'' (UUIDType False) None True) None,
        drop_index ''idx_fileloc_hash'',
        drop_column ''fileloc_hash'',
        drop_column ''fileloc'',
        create_primary_key ''serialized_dag_pkey'' [''id''],
        add_column (Column ''dag_version_id'' (UUIDType False) (Some False) False) None,
        create_foreign_key (op_f ''serialized_dag_dag_version_id_fkey'') ''dag_version''
          [''dag_version_id''] [''id''] CASCADE,
        create_unique_constraint ''serialized_dag_dag_version_id_uq'' [''dag_version_id''],
        add_column
          ((Column ''created_at'' UtcDateTime (Some False) False)\<lparr>c_default := Some utcnow\<rparr>)
          None]"

definition upgrade_task_instance :: operation where
  "upgrade_task_instance =
     batch_alter_table ''task_instance'' None
       [add_column (Column ''dag_version_id'' (UUIDType False) None False) None,
        create_foreign_key (op_f ''task_instance_dag_version_id_fkey'') ''dag_version''
          [''dag_version_id''] [''id''] CASCADE]"

definition upgrade_task_instance_history :: operation where
  "upgrade_task_instance_history =
     batch_alter_table ''task_instance_history'' None
       [add_column (Column ''dag_version_id'' (UUIDType False) None False) None]"

definition upgrade_dag_run :: operation where
  "upgrade_dag_run =
     batch_alter_table ''dag_run'' None
       [drop_column ''dag_hash'']"

definition upgrade_ops :: "operation list" where
  "upgrade_ops =
     delete_serdag_and_code @
     [create_dag_version, upgrade_dag_code, upgrade_serialized_dag, upgrade_task_instance,
      upgrade_task_instance_history, upgrade_dag_run]"

definition upgrade :: "database \<Rightarrow> error + database" where
  "upgrade db = run upgrade_ops db"

text \<open>The blocks of \<^verbatim>\<open>downgrade()\<close>, in the order of the source.\<close>

definition delete_dag_version :: operation where
  "delete_dag_version = execute (DELETE_FROM ''dag_version'')"

definition downgrade_task_instance_history :: operation where
  "downgrade_task_instance_history =
     batch_alter_table ''task_instance_history'' None
       [drop_column ''dag_version_id'']"

definition downgrade_task_instance :: operation where
  "downgrade_task_instance =
     batch_alter_table ''task_instance'' None
       [drop_constraint (op_f ''task_instance_dag_version_id_fkey'') foreignkey,
        drop_column ''dag_version_id'']"

definition downgrade_dag_code :: operation where
  "downgrade_dag_code =
     batch_alter_table ''dag_code'' None
       [drop_column ''id'',
        drop_constraint (op_f ''dag_code_dag_version_id_fkey'') foreignkey,
        drop_column ''dag_version_id'',
        add_column (Column ''fileloc_hash'' BigInteger (Some False) False) None,
        create_primary_key ''dag_code_pkey'' [''fileloc_hash''],
        drop_column ''source_code_hash'',
        drop_column ''dag_id'',
        drop_column ''created_at'']"

definition downgrade_serialized_dag :: operation where
  "downgrade_serialized_dag =
     batch_alter_table ''serialized_dag'' None
       [drop_column ''id'',
        add_column
          ((Column ''fileloc'' (String (Lit 2000)) (Some False) False)
             \<lparr>c_autoincrement := Some False\<rparr>) None,
        add_column
          ((Column ''fileloc_hash'' BIGINT (Some False) False)\<lparr>c_autoincrement := Some False\<rparr>)
          None,
        create_index ''idx_fileloc_hash'' [''fileloc_hash''] False,
        create_primary_key ''serialized_dag_pkey'' [''dag_id''],
        drop_constraint (op_f ''serialized_dag_dag_version_id_fkey'') foreignkey,
        drop_column ''dag_version_id'',
        drop_column ''created_at'']"

definition downgrade_dag_run :: operation where
  "downgrade_dag_run =
     batch_alter_table ''dag_run'' None
       [add_column
          ((Column ''dag_hash'' (String (Lit 32)) (Some True) False)
             \<lparr>c_autoincrement := Some False\<rparr>) None]"

definition drop_dag_version :: operation where
  "drop_dag_version = drop_table ''dag_version''"

definition downgrade_ops :: "operation list" where
  "downgrade_ops =
     [delete_dag_version, downgrade_task_instance_history, downgrade_task_instance,
      downgrade_dag_code, downgrade_serialized_dag, downgrade_dag_run, drop_dag_version]"

definition downgrade :: "database \<Rightarrow> error + database" where
  "downgrade db = run downgrade_ops db"

section \<open>Database states\<close>

text \<open>No foreign key of the database points to the table \<open>tn\<close>.\<close>

definition unreferenced :: "database \<Rightarrow> string \<Rightarrow> bool" where
  "unreferenced db tn = (\<forall>c \<in> set db. \<forall>k \<in> set (t_constraints c). \<not> references_table k tn)"

definition has_table_with :: "database \<Rightarrow> string \<Rightarrow> (table \<Rightarrow> bool) \<Rightarrow> bool" where
  "has_table_with db n P = (case get_table db n of None \<Rightarrow> False | Some t \<Rightarrow> P t)"

text \<open>
  What \<^verbatim>\<open>upgrade()\<close> expects of the database it starts from: the tables it alters
  exist (the names of tables are distinct), \<^verbatim>\<open>dag\<close> has the column the new foreign key
  points to and that column is a key of it, \<^verbatim>\<open>dag_version\<close> does not exist yet and nothing points to it, the columns to
  add are not there, the column to drop is, and no foreign key points to the two tables
  whose rows are deleted.
\<close>

definition pre_migration :: "database \<Rightarrow> bool" where
  "pre_migration db \<longleftrightarrow>
     distinct (map t_name db) \<and>
     has_table_with db ''dag'' (\<lambda>t. ''dag_id'' \<in> set (colnames t) \<and> is_key t [''dag_id'']) \<and>
     get_table db ''dag_version'' = None \<and>
     get_table db ''dag_code'' \<noteq> None \<and>
     get_table db ''serialized_dag'' \<noteq> None \<and>
     has_table_with db ''task_instance'' (\<lambda>t. ''dag_version_id'' \<notin> set (colnames t)) \<and>
     has_table_with db ''task_instance_history'' (\<lambda>t. ''dag_version_id'' \<notin> set (colnames t)) \<and>
     has_table_with db ''dag_run'' (\<lambda>t. ''dag_hash'' \<in> set (colnames t)) \<and>
     unreferenced db ''serialized_dag'' \<and> unreferenced db ''dag_code'' \<and>
     unreferenced db ''dag_version''"

text \<open>
  The two tables that are built again have, before the migration, the shape that the
  descriptions passed as \<^verbatim>\<open>copy_from\<close> give them.
\<close>

definition as_described :: "database \<Rightarrow> bool" where
  "as_described db \<longleftrightarrow>
     has_table_with db ''dag_code'' (\<lambda>t. t\<lparr>t_rows := []\<rparr> = old_dagcode_table) \<and>
     has_table_with db ''serialized_dag'' (\<lambda>t. t\<lparr>t_rows := []\<rparr> = old_serialized_table)"

text \<open>Deleting every row of the table \<open>n\<close>, as a function on tables.\<close>

definition truncate_table :: "string \<Rightarrow> table \<Rightarrow> table" where
  "truncate_table n t = (if t_name t = n then t\<lparr>t_rows := []\<rparr> else t)"

text \<open>
  The tables that \<^verbatim>\<open>upgrade()\<close> produces, written out; \<open>upgrade_closed_form\<close> below proves
  that running the operations gives exactly these.
\<close>

definition dag_version_table :: table where
  "dag_version_table =
     \<lparr>t_name = ''dag_version'',
      t_columns =
        [Column ''id'' (UUIDType False) (Some False) True,
         Column ''version_number'' Integer (Some False) False,
         Column ''dag_id'' StringID (Some False) False,
         (Column ''created_at'' UtcDateTime (Some False) False)\<lparr>c_default := Some utcnow\<rparr>,
         (Column ''last_updated'' UtcDateTime (Some False) False)
           \<lparr>c_default := Some utcnow, c_onupdate := Some utcnow\<rparr>],
      t_constraints =
        [ForeignKeyConstraint ''dag_version_dag_id_fkey'' [''dag_id''] ''dag'' [''dag_id''] CASCADE,
         PrimaryKeyConstraint ''dag_version_pkey'' [''id''],
         UniqueConstraint ''dag_id_v_name_v_number_unique_constraint''
           [''dag_id'', ''version_number'']],
      t_indexes = [], t_rows = []\<rparr>"

definition upgraded_dagcode_table :: table where
  "upgraded_dagcode_table =
     \<lparr>t_name = ''dag_code'',
      t_columns =
        [Column ''id'' (UUIDType False) (Some False) True,
         Column ''fileloc'' (String (Lit 2000)) (Some False) False,
         (Column ''last_updated'' UtcDateTime (Some False) False)\<lparr>c_onupdate := Some utcnow\<rparr>,
         Column ''source_code'' (with_variant Text MEDIUMTEXT ''mysql'') (Some False) False,
         Column ''dag_version_id'' (UUIDType False) (Some False) False,
         Column ''source_code_hash'' (String (Lit 32)) (Some False) False,
         Column ''dag_id'' (String (Lit 250)) (Some False) False,
         (Column ''created_at'' UtcDateTime (Some False) False)\<lparr>c_default := Some utcnow\<rparr>],
      t_constraints =
        [PrimaryKeyConstraint ''dag_code_pkey'' [''id''],
         ForeignKeyConstraint ''dag_code_dag_version_id_fkey'' [''dag_version_id'']
           ''dag_version'' [''id''] CASCADE,
         UniqueConstraint ''dag_code_dag_version_id_uq'' [''dag_version_id'']],
      t_indexes = [], t_rows = []\<rparr>"

definition upgraded_serialized_table :: table where
  "upgraded_serialized_table =
     \<lparr>t_name = ''serialized_dag'',
      t_columns =
        [Column ''dag_id'' (String ID_LEN) (Some False) False,
         Column ''data'' JSONField (Some True) False,
         Column ''data_compressed'' LargeBinary (Some True) False,
         Column ''dag_hash'' (String (Lit 32)) (Some False) False,
         Column ''last_updated'' UtcDateTime (Some False) False,
         Column ''processor_subdir'' (String (Lit 2000)) (Some True) False,
         Column ''id'' (UUIDType False) (Some False) True,
         Column ''dag_version_id'' (UUIDType False) (Some False) False,
         (Column ''created_at'' UtcDateTime (Some False) False)\<lparr>c_default := Some utcnow\<rparr>],
      t_constraints =
        [PrimaryKeyConstraint ''serialized_dag_pkey'' [''id''],
         ForeignKeyConstraint ''serialized_dag_dag_version_id_fkey'' [''dag_version_id'']
           ''dag_version'' [''id''] CASCADE,
         UniqueConstraint ''serialized_dag_dag_version_id_uq'' [''dag_version_id'']],
      t_indexes = [], t_rows = []\<rparr>"

definition upgrade_table :: "table \<Rightarrow> table" where
  "upgrade_table t =
     (if t_name t = ''dag_code'' then upgraded_dagcode_table
      else if t_name t = ''serialized_dag'' then upgraded_serialized_table
      else if t_name t = ''task_instance'' then
        t\<lparr>t_columns := t_columns t @ [Column ''dag_version_id'' (UUIDType False) (Some True) False],
          t_rows := map (\<lambda>r. (''dag_version_id'', None) # r) (t_rows t),
          t_constraints := t_constraints t @
            [ForeignKeyConstraint ''task_instance_dag_version_id_fkey'' [''dag_version_id'']
               ''dag_version'' [''id''] CASCADE]\<rparr>
      else if t_name t = ''task_instance_history'' then
        t\<lparr>t_columns := t_columns t @ [Column ''dag_version_id'' (UUIDType False) (Some True) False],
          t_rows := map (\<lambda>r. (''dag_version_id'', None) # r) (t_rows t)\<rparr>
      else if t_name t = ''dag_run'' then
        t\<lparr>t_columns := filter (\<lambda>c. c_name c \<noteq> ''dag_hash'') (t_columns t),
          t_constraints := filter (\<lambda>k. ''dag_hash'' \<notin> set (constraint_columns k)) (t_constraints t),
          t_indexes := filter (\<lambda>i. ''dag_hash'' \<notin> set (i_columns i)) (t_indexes t),
          t_rows := map (filter (\<lambda>(k, v). k \<noteq> ''dag_hash'')) (t_rows t)\<rparr>
      else t)"

text \<open>
  What \<^verbatim>\<open>downgrade()\<close> expects of the schema: the names of tables are distinct, the two
  rebuilt tables have the shape
  \<^verbatim>\<open>upgrade()\<close> gives them, \<^verbatim>\<open>task_instance\<close> has the column and the foreign key that were
  added (and no other constraint pointing to \<^verbatim>\<open>dag_version\<close>), \<^verbatim>\<open>task_instance_history\<close> has
  the column, \<^verbatim>\<open>dag_run\<close> has no \<^verbatim>\<open>dag_hash\<close>, and no other table points to \<^verbatim>\<open>dag_version\<close>.
\<close>

definition upgraded_schema :: "database \<Rightarrow> bool" where
  "upgraded_schema db \<longleftrightarrow>
     distinct (map t_name db) \<and>
     get_table db ''dag_version'' \<noteq> None \<and>
     has_table_with db ''dag_code'' (\<lambda>t. t\<lparr>t_rows := []\<rparr> = upgraded_dagcode_table) \<and>
     has_table_with db ''serialized_dag'' (\<lambda>t. t\<lparr>t_rows := []\<rparr> = upgraded_serialized_table) \<and>
     has_table_with db ''task_instance''
       (\<lambda>t. ''dag_version_id'' \<in> set (colnames t) \<and>
            ForeignKeyConstraint ''task_instance_dag_version_id_fkey'' [''dag_version_id'']
              ''dag_version'' [''id''] CASCADE \<in> set (t_constraints t) \<and>
            (\<forall>k \<in> set (t_constraints t). references_table k ''dag_version'' \<longrightarrow>
               k = ForeignKeyConstraint ''task_instance_dag_version_id_fkey''
                     [''dag_version_id''] ''dag_version'' [''id''] CASCADE)) \<and>
     has_table_with db ''task_instance_history'' (\<lambda>t. ''dag_version_id'' \<in> set (colnames t)) \<and>
     has_table_with db ''dag_run'' (\<lambda>t. ''dag_hash'' \<notin> set (colnames t)) \<and>
     (\<forall>c \<in> set db. t_name c \<notin> {''task_instance'', ''dag_code'', ''serialized_dag''} \<longrightarrow>
        (\<forall>k \<in> set (t_constraints c). \<not> references_table k ''dag_version''))"

text \<open>
  The rows of the two artifact tables respect their foreign key: each names a version
  (the column is NOT NULL) and that version is stored.
\<close>

definition artifacts_reference_versions :: "database \<Rightarrow> bool" where
  "artifacts_reference_versions db \<longleftrightarrow>
     (\<forall>tn \<in> {''dag_code'', ''serialized_dag''}. \<forall>r \<in> set (rows_of db tn).
        cell r ''dag_version_id'' \<noteq> None \<and>
        (\<exists>p \<in> set (rows_of db ''dag_version''). cell p ''id'' = cell r ''dag_version_id''))"

text \<open>The rows that \<^verbatim>\<open>DELETE FROM dag_version\<close> removes, with those the delete cascades to.\<close>

definition deleted_with_versions :: "database \<Rightarrow> (string \<times> row) list" where
  "deleted_with_versions db =
     cascade db (map (Pair ''dag_version'') (rows_of db ''dag_version''))"

text \<open>
  The tables that the operations of \<^verbatim>\<open>downgrade()\<close> make of those of \<^verbatim>\<open>upgrade()\<close>, written
  out.
\<close>

definition downgraded_dagcode_table :: table where
  "downgraded_dagcode_table =
     \<lparr>t_name = ''dag_code'',
      t_columns =
        [Column ''fileloc'' (String (Lit 2000)) (Some False) False,
         (Column ''last_updated'' UtcDateTime (Some False) False)\<lparr>c_onupdate := Some utcnow\<rparr>,
         Column ''source_code'' (with_variant Text MEDIUMTEXT ''mysql'') (Some False) False,
         Column ''fileloc_hash'' BigInteger (Some False) True],
      t_constraints = [PrimaryKeyConstraint ''dag_code_pkey'' [''fileloc_hash'']],
      t_indexes = [], t_rows = []\<rparr>"

definition downgraded_serialized_table :: table where
  "downgraded_serialized_table =
     \<lparr>t_name = ''serialized_dag'',
      t_columns =
        [Column ''dag_id'' (String ID_LEN) (Some False) True,
         Column ''data'' JSONField (Some True) False,
         Column ''data_compressed'' LargeBinary (Some True) False,
         Column ''dag_hash'' (String (Lit 32)) (Some False) False,
         Column ''last_updated'' UtcDateTime (Some False) False,
         Column ''processor_subdir'' (String (Lit 2000)) (Some True) False,
         (Column ''fileloc'' (String (Lit 2000)) (Some False) False)
           \<lparr>c_autoincrement := Some False\<rparr>,
         (Column ''fileloc_hash'' BigInteger (Some False) False)\<lparr>c_autoincrement := Some False\<rparr>],
      t_constraints = [PrimaryKeyConstraint ''serialized_dag_pkey'' [''dag_id'']],
      t_indexes = [\<lparr>i_name = ''idx_fileloc_hash'', i_columns = [''fileloc_hash''],
                    i_unique = False\<rparr>],
      t_rows = []\<rparr>"

definition drop_version_column :: "table \<Rightarrow> table" where
  "drop_version_column t =
     t\<lparr>t_columns := filter (\<lambda>c. c_name c \<noteq> ''dag_version_id'') (t_columns t),
       t_constraints :=
         filter (\<lambda>k. ''dag_version_id'' \<notin> set (constraint_columns k)) (t_constraints t),
       t_indexes := filter (\<lambda>i. ''dag_version_id'' \<notin> set (i_columns i)) (t_indexes t),
       t_rows := map (filter (\<lambda>(k, v). k \<noteq> ''dag_version_id'')) (t_rows t)\<rparr>"

definition downgrade_table :: "table \<Rightarrow> table" where
  "downgrade_table t =
     (if t_name t = ''dag_code'' then downgraded_dagcode_table
      else if t_name t = ''serialized_dag'' then downgraded_serialized_table
      else if t_name t = ''task_instance'' then
        drop_version_column
          (t\<lparr>t_constraints :=
               filter (\<lambda>k. \<not> (constraint_name k = ''task_instance_dag_version_id_fkey'' \<and>
                              is_foreign k)) (t_constraints t)\<rparr>)
      else if t_name t = ''task_instance_history'' then drop_version_column t
      else if t_name t = ''dag_run'' then
        t\<lparr>t_columns := t_columns t @
             [(Column ''dag_hash'' (String (Lit 32)) (Some True) False)
                \<lparr>c_autoincrement := Some False\<rparr>],
          t_rows := map (\<lambda>r. (''dag_hash'', None) # r) (t_rows t)\<rparr>
      else t)"

text \<open>A small database before the migration, with rows in every table.\<close>

definition example_db :: database where
  "example_db =
     [\<lparr>t_name = ''dag'',
       t_columns = [Column ''dag_id'' StringID (Some False) True],
       t_constraints = [PrimaryKeyConstraint ''dag_pkey'' [''dag_id'']],
       t_indexes = [],
       t_rows = [[(''dag_id'', Some (S ''etl_daily''))]]\<rparr>,
      old_dagcode_table
        \<lparr>t_rows := [[(''fileloc_hash'', Some (I 7)), (''fileloc'', Some (S ''/dags/etl.py'')),
                     (''last_updated'', Some (I 1)), (''source_code'', Some (S ''pass''))]]\<rparr>,
      old_serialized_table
        \<lparr>t_rows := [[(''dag_id'', Some (S ''etl_daily'')), (''fileloc'', Some (S ''/dags/etl.py'')),
                     (''fileloc_hash'', Some (I 7)), (''data'', Some (S ''{}'')),
                     (''data_compressed'', None), (''dag_hash'', Some (S ''abc'')),
                     (''last_updated'', Some (I 1)), (''processor_subdir'', None)]]\<rparr>,
      \<lparr>t_name = ''task_instance'',
       t_columns = [Column ''id'' (UUIDType False) None True,
                    Column ''dag_id'' StringID (Some False) False],
       t_constraints = [PrimaryKeyConstraint ''task_instance_pkey'' [''id'']],
       t_indexes = [],
       t_rows = [[(''id'', Some (I 1)), (''dag_id'', Some (S ''etl_daily''))]]\<rparr>,
      \<lparr>t_name = ''task_instance_history'',
       t_columns = [Column ''id'' (UUIDType False) None True,
                    Column ''dag_id'' StringID (Some False) False],
       t_constraints = [PrimaryKeyConstraint ''task_instance_history_pkey'' [''id'']],
       t_indexes = [],
       t_rows = [[(''id'', Some (I 1)), (''dag_id'', Some (S ''etl_daily''))]]\<rparr>,
      \<lparr>t_name = ''dag_run'',
       t_columns = [Column ''id'' Integer None True,
                    Column ''dag_hash'' (String (Lit 32)) None False],
       t_constraints = [PrimaryKeyConstraint ''dag_run_pkey'' [''id'']],
       t_indexes = [],
       t_rows = [[(''id'', Some (I 1)), (''dag_hash'', Some (S ''abc''))]]\<rparr>]"

text \<open>
  What a running system may store after the upgrade: two versions of one definition, the
  source and the serialized form of the first, and a live and a historical execution
  record of it.
\<close>

definition example_statements :: "sql list" where
  "example_statements =
     [INSERT_INTO ''dag_version''
        [(''id'', Some (I 10)), (''version_number'', Some (I 1)),
         (''dag_id'', Some (S ''etl_daily'')), (''created_at'', Some (I 2)),
         (''last_updated'', Some (I 2))],
      INSERT_INTO ''dag_version''
        [(''id'', Some (I 11)), (''version_number'', Some (I 2)),
         (''dag_id'', Some (S ''etl_daily'')), (''created_at'', Some (I 3)),
         (''last_updated'', Some (I 3))],
      INSERT_INTO ''dag_code''
        [(''id'', Some (I 100)), (''fileloc'', Some (S ''/dags/etl.py'')),
         (''last_updated'', Some (I 2)), (''source_code'', Some (S ''pass'')),
         (''dag_version_id'', Some (I 10)), (''source_code_hash'', Some (S ''abc'')),
         (''dag_id'', Some (S ''etl_daily'')), (''created_at'', Some (I 2))],
      INSERT_INTO ''serialized_dag''
        [(''dag_id'', Some (S ''etl_daily'')), (''data'', Some (S ''{}'')),
         (''data_compressed'', None), (''dag_hash'', Some (S ''abc'')),
         (''last_updated'', Some (I 2)), (''processor_subdir'', None),
         (''id'', Some (I 200)), (''dag_version_id'', Some (I 10)),
         (''created_at'', Some (I 2))],
      INSERT_INTO ''task_instance''
        [(''id'', Some (I 2)), (''dag_id'', Some (S ''etl_daily'')),
         (''dag_version_id'', Some (I 10))],
      INSERT_INTO ''task_instance_history''
        [(''id'', Some (I 2)), (''dag_id'', Some (S ''etl_daily'')),
         (''dag_version_id'', Some (I 10))]]"

text \<open>
  Two rows that such a system must not accept afterwards: a second source for version 10,
  and a third version that repeats the number of the first.
\<close>

definition second_source_row :: row where
  "second_source_row =
     [(''id'', Some (I 101)), (''fileloc'', Some (S ''/dags/etl_copy.py'')),
      (''last_updated'', Some (I 4)), (''source_code'', Some (S ''pass'')),
      (''dag_version_id'', Some (I 10)), (''source_code_hash'', Some (S ''def'')),
      (''dag_id'', Some (S ''etl_daily'')), (''created_at'', Some (I 4))]"

definition repeated_version_row :: row where
  "repeated_version_row =
     [(''id'', Some (I 12)), (''version_number'', Some (I 1)),
      (''dag_id'', Some (S ''etl_daily'')), (''created_at'', Some (I 4)),
      (''last_updated'', Some (I 4))]"

section \<open>Reading and writing tables\<close>

lemma get_table_name: "get_table db n = Some t \<Longrightarrow> t_name t = n"
  by (auto simp: get_table_def dest: find_Some_iff [THEN iffD1])

lemma get_table_mem: "get_table db n = Some t \<Longrightarrow> t \<in> set db"
  unfolding get_table_def by (induction db) (auto split: if_splits)

lemma get_table_None: "get_table db n = None \<longleftrightarrow> (\<forall>t \<in> set db. t_name t \<noteq> n)"
  unfolding get_table_def by (induction db) auto

lemma get_put_table:
  "get_table (put_table t db) n =
     (if n = t_name t then (case get_table db n of None \<Rightarrow> None | Some u \<Rightarrow> Some t)
      else get_table db n)"
  unfolding get_table_def put_table_def by (induction db) auto

lemma get_table_append:
  "get_table (db @ [v]) n =
     (case get_table db n of Some t \<Rightarrow> Some t | None \<Rightarrow> if t_name v = n then Some v else None)"
  unfolding get_table_def by (induction db) auto

lemma get_table_map:
  "(\<And>t. t_name (f t) = t_name t) \<Longrightarrow> get_table (map f db) n = map_option f (get_table db n)"
  unfolding get_table_def by (induction db) auto

lemma get_remove_rows:
  "get_table (remove_rows m db) n =
     map_option (\<lambda>c. c\<lparr>t_rows := filter (\<lambda>r. (n, r) \<notin> set m) (t_rows c)\<rparr>) (get_table db n)"
  unfolding get_table_def remove_rows_def by (induction db) auto

lemma get_table_filter:
  "get_table (filter (\<lambda>t. t_name t \<noteq> n) db) k = (if k = n then None else get_table db k)"
  unfolding get_table_def by (induction db) auto

lemma distinct_get_table:
  "distinct (map t_name db) \<Longrightarrow> t \<in> set db \<Longrightarrow> get_table db (t_name t) = Some t"
  unfolding get_table_def by (induction db) auto

lemma cascade_fix: "set (cascades db m) \<subseteq> set m \<Longrightarrow> cascade db m = m"
  by (subst cascade.simps) (auto simp: filter_empty_conv Let_def)

lemma fk_refs_references: "fk_refs k r tn p \<Longrightarrow> references_table k tn"
  by (cases k) auto

lemma cascades_unreferenced:
  assumes "unreferenced db tn"
  shows "cascades db (map (Pair tn) rs) = []"
proof -
  have "\<not> (\<exists>c \<in> set db. t_name c = cn \<and> r \<in> set (t_rows c) \<and>
            (\<exists>k \<in> set (t_constraints c). is_cascade k \<and>
               (\<exists>(tn', p) \<in> set (map (Pair tn) rs). fk_refs k r tn' p)))" for cn r
  proof
    assume "\<exists>c \<in> set db. t_name c = cn \<and> r \<in> set (t_rows c) \<and>
            (\<exists>k \<in> set (t_constraints c). is_cascade k \<and>
               (\<exists>(tn', p) \<in> set (map (Pair tn) rs). fk_refs k r tn' p))"
    then obtain c k p where "c \<in> set db" "k \<in> set (t_constraints c)" "fk_refs k r tn p"
      by auto
    with assms show False
      using fk_refs_references unfolding unreferenced_def by blast
  qed
  then show ?thesis
    unfolding cascades_def filter_empty_conv by (simp add: split_def)
qed

lemma refused_unreferenced:
  assumes "unreferenced db tn"
  shows "\<not> refused db (map (Pair tn) rs)"
proof
  assume "refused db (map (Pair tn) rs)"
  then obtain c k r p where "c \<in> set db" "k \<in> set (t_constraints c)" "fk_refs k r tn p"
    unfolding refused_def by auto
  with assms show False
    using fk_refs_references unfolding unreferenced_def by blast
qed

lemma delete_all_unreferenced:
  assumes "unreferenced db tn" "get_table db tn = Some t"
  shows "delete_rows tn (\<lambda>r. True) db = Inr (remove_rows (map (Pair tn) (t_rows t)) db)"
proof -
  have "cascade db (map (Pair tn) (t_rows t)) = map (Pair tn) (t_rows t)"
    by (rule cascade_fix) (simp add: cascades_unreferenced [OF assms(1)])
  then show ?thesis
    using assms refused_unreferenced [OF assms(1), of "t_rows t"]
    by (simp add: delete_rows_def)
qed

lemma remove_all_rows:
  assumes "distinct (map t_name db)" "get_table db tn = Some t"
  shows "remove_rows (map (Pair tn) (t_rows t)) db = map (truncate_table tn) db"
proof -
  have "c\<lparr>t_rows := filter (\<lambda>r. (t_name c, r) \<notin> set (map (Pair tn) (t_rows t))) (t_rows c)\<rparr>
          = truncate_table tn c" if "c \<in> set db" for c
  proof (cases "t_name c = tn")
    case True
    with assms that have "c = t"
      using distinct_get_table [of db c] by simp
    with True show ?thesis
      by (simp add: truncate_table_def)
  next
    case False
    then have "filter (\<lambda>r. (t_name c, r) \<notin> set (map (Pair tn) (t_rows t))) (t_rows c) = t_rows c"
      by (auto simp: filter_id_conv)
    with False show ?thesis
      by (simp add: truncate_table_def)
  qed
  then show ?thesis
    unfolding remove_rows_def by (simp cong: map_cong)
qed

lemma truncate_table_name [simp]: "t_name (truncate_table n t) = t_name t"
  by (simp add: truncate_table_def)

lemma unreferenced_map:
  "(\<And>t. t_constraints (f t) = t_constraints t) \<Longrightarrow> unreferenced (map f db) tn = unreferenced db tn"
  by (simp add: unreferenced_def)

lemma truncate_table_constraints [simp]: "t_constraints (truncate_table n t) = t_constraints t"
  by (simp add: truncate_table_def)

lemma cell_Cons_same [simp]: "cell ((c, v) # r) c = v"
  by (simp add: cell_def)

lemma copy_rows_empty: "t_rows t = [] \<Longrightarrow> copy_rows (Table n cs is) t = Table n cs is"
  by (simp add: copy_rows_def Table_def)

lemma has_table_withE:
  assumes "has_table_with db n P"
  obtains t where "get_table db n = Some t" "P t"
  using assms by (auto simp: has_table_with_def split: option.splits)

lemma create_dag_version_step:
  assumes "get_table db ''dag_version'' = None" "get_table db ''dag'' = Some dg"
    "''dag_id'' \<in> set (colnames dg)" "is_key dg [''dag_id'']"
  shows "apply_operation create_dag_version db = Inr (db @ [dag_version_table])"
  using assms
  by (simp add: create_dag_version_def dag_version_table_def op_f_def Column_def
      set_primary_flag_def has_columns_def)

lemma description_error_same: "description_error s s = None"
  by (simp add: description_error_def)

lemma copy_rows_same: "t_rows s = [] \<Longrightarrow> copy_rows s s = s"
  by (simp add: copy_rows_def)

lemma batch_alter_described:
  assumes "get_table db n = Some s" "t_rows s = []"
  shows "apply_operation (batch_alter_table n (Some s) bs) db =
     (case batch_run db bs s of Inl e \<Rightarrow> Inl e | Inr t' \<Rightarrow> Inr (put_table t' db))"
  using assms by (simp add: description_error_same copy_rows_same)

lemma upgrade_dag_code_step:
  assumes "get_table db ''dag_version'' = Some dag_version_table"
    "get_table db ''dag_code'' = Some old_dagcode_table"
  shows "apply_operation upgrade_dag_code db = Inr (put_table upgraded_dagcode_table db)"
proof -
  have "t_rows old_dagcode_table = []"
    by (simp add: old_dagcode_table_def Table_def)
  note step = batch_alter_described [OF assms(2) this]
  show ?thesis
    unfolding upgrade_dag_code_def step
    using assms(1)
    by (simp add: old_dagcode_table_def old_dagcode_table_def upgraded_dagcode_table_def
        dag_version_table_def Table_def Column_def pk_name_def colnames_def set_primary_flag_def
        place_column_def has_columns_def op_f_def no_nulls_def unique_rows_def is_key_def)
qed

lemma upgrade_serialized_dag_step:
  assumes "get_table db ''dag_version'' = Some dag_version_table"
    "get_table db ''serialized_dag'' = Some old_serialized_table"
  shows "apply_operation upgrade_serialized_dag db = Inr (put_table upgraded_serialized_table db)"
proof -
  have "t_rows old_serialized_table = []"
    by (simp add: old_serialized_table_def Table_def)
  note step = batch_alter_described [OF assms(2) this]
  show ?thesis
    unfolding upgrade_serialized_dag_def step
    using assms(1)
    by (simp add: old_serialized_table_def old_serialized_table_def
        upgraded_serialized_table_def dag_version_table_def Table_def Column_def pk_name_def
        colnames_def set_primary_flag_def place_column_def has_columns_def op_f_def no_nulls_def
        unique_rows_def is_key_def)
qed

lemma upgrade_task_instance_step:
  assumes "get_table db ''dag_version'' = Some dag_version_table"
    "get_table db ''task_instance'' = Some t" "''dag_version_id'' \<notin> set (colnames t)"
  shows "apply_operation upgrade_task_instance db = Inr (put_table (upgrade_table t) db)"
proof -
  have "t_name t = ''task_instance''"
    using assms(2) by (rule get_table_name)
  then show ?thesis
    using assms
    by (simp add: upgrade_task_instance_def upgrade_table_def dag_version_table_def Column_def
        colnames_def place_column_def has_columns_def op_f_def cells_def is_key_def)
qed

lemma upgrade_task_instance_history_step:
  assumes "get_table db ''task_instance_history'' = Some t"
    "''dag_version_id'' \<notin> set (colnames t)"
  shows "apply_operation upgrade_task_instance_history db = Inr (put_table (upgrade_table t) db)"
proof -
  have "t_name t = ''task_instance_history''"
    using assms(1) by (rule get_table_name)
  then show ?thesis
    using assms
    by (simp add: upgrade_task_instance_history_def upgrade_table_def Column_def colnames_def
        place_column_def)
qed

lemma upgrade_dag_run_step:
  assumes "get_table db ''dag_run'' = Some t" "''dag_hash'' \<in> set (colnames t)"
  shows "apply_operation upgrade_dag_run db = Inr (put_table (upgrade_table t) db)"
proof -
  have "t_name t = ''dag_run''"
    using assms(1) by (rule get_table_name)
  then show ?thesis
    using assms by (simp add: upgrade_dag_run_def upgrade_table_def)
qed

lemma delete_all_step:
  assumes "distinct (map t_name db)" "unreferenced db tn" "get_table db tn = Some t"
  shows "apply_operation (execute (DELETE_FROM tn)) db = Inr (map (truncate_table tn) db)"
  using delete_all_unreferenced [OF assms(2,3)] remove_all_rows [OF assms(1,3)]
  by simp

lemma upgrade_table_name [simp]: "t_name (upgrade_table t) = t_name t"
  by (simp add: upgrade_table_def upgraded_dagcode_table_def upgraded_serialized_table_def)

lemma upgraded_names [simp]:
  "t_name upgraded_dagcode_table = ''dag_code''"
  "t_name upgraded_serialized_table = ''serialized_dag''"
  "t_name dag_version_table = ''dag_version''"
  by (simp_all add: upgraded_dagcode_table_def upgraded_serialized_table_def dag_version_table_def)

lemma put_table_append:
  "put_table t (db @ [v]) = put_table t db @ [if t_name v = t_name t then t else v]"
  by (simp add: put_table_def)

lemma put_table_distinct:
  assumes "distinct (map t_name db)" "get_table db n = Some t" "t_name t' = n"
  shows "put_table t' db = map (\<lambda>u. if u = t then t' else u) db"
proof -
  have "(if t_name u = t_name t' then t' else u) = (if u = t then t' else u)"
    if "u \<in> set db" for u
    using assms that distinct_get_table [of db u] get_table_name [OF assms(2)] by auto
  then show ?thesis
    by (simp add: put_table_def cong: map_cong)
qed

lemma distinct_put_table: "distinct (map t_name (put_table t db)) = distinct (map t_name db)"
proof -
  have "map t_name (put_table t db) = map t_name db"
    by (simp add: put_table_def o_def cong: if_cong)
  then show ?thesis by simp
qed

lemma map_name_put_table [simp]: "map t_name (put_table t db) = map t_name db"
  by (induction db) (auto simp: put_table_def)

lemma map_name_truncate_table [simp]: "map t_name (map (truncate_table n) db) = map t_name db"
  by (induction db) auto

lemma upgrade_closed_form:
  assumes pre: "pre_migration db" and described: "as_described db"
  shows "upgrade db = Inr (map upgrade_table db @ [dag_version_table])"
proof -
  from pre have dist: "distinct (map t_name db)"
    and nodv: "get_table db ''dag_version'' = None"
    and unref: "unreferenced db ''serialized_dag''" "unreferenced db ''dag_code''"
    by (simp_all add: pre_migration_def)
  from pre obtain dg where dg: "get_table db ''dag'' = Some dg" "''dag_id'' \<in> set (colnames dg)"
      "is_key dg [''dag_id'']"
    by (auto simp: pre_migration_def elim: has_table_withE)
  from described obtain dc where dc: "get_table db ''dag_code'' = Some dc"
      "dc\<lparr>t_rows := []\<rparr> = old_dagcode_table"
    by (auto simp: as_described_def elim: has_table_withE)
  from described obtain sd where sd: "get_table db ''serialized_dag'' = Some sd"
      "sd\<lparr>t_rows := []\<rparr> = old_serialized_table"
    by (auto simp: as_described_def elim: has_table_withE)
  from pre obtain ti where ti: "get_table db ''task_instance'' = Some ti"
      "''dag_version_id'' \<notin> set (colnames ti)"
    by (auto simp: pre_migration_def elim: has_table_withE)
  from pre obtain th where th: "get_table db ''task_instance_history'' = Some th"
      "''dag_version_id'' \<notin> set (colnames th)"
    by (auto simp: pre_migration_def elim: has_table_withE)
  from pre obtain dr where dr: "get_table db ''dag_run'' = Some dr"
      "''dag_hash'' \<in> set (colnames dr)"
    by (auto simp: pre_migration_def elim: has_table_withE)
  define db1 where "db1 = map (truncate_table ''serialized_dag'') db"
  define db2 where "db2 = map (truncate_table ''dag_code'') db1"
  define db3 where "db3 = db2 @ [dag_version_table]"
  define db4 where "db4 = put_table upgraded_dagcode_table db3"
  define db5 where "db5 = put_table upgraded_serialized_table db4"
  define db6 where "db6 = put_table (upgrade_table ti) db5"
  define db7 where "db7 = put_table (upgrade_table th) db6"
  define db8 where "db8 = put_table (upgrade_table dr) db7"
  have names: "t_name ti = ''task_instance''" "t_name th = ''task_instance_history''"
      "t_name dr = ''dag_run''" "t_name dc = ''dag_code''" "t_name sd = ''serialized_dag''"
      "t_name dg = ''dag''"
    using ti(1) th(1) dr(1) dc(1) sd(1) dg(1) by (auto dest: get_table_name)
  have g1: "get_table db1 n = map_option (truncate_table ''serialized_dag'') (get_table db n)" for n
    unfolding db1_def by (rule get_table_map) simp
  have g2: "get_table db2 n = map_option (truncate_table ''dag_code'') (get_table db1 n)" for n
    unfolding db2_def by (rule get_table_map) simp
  have g3: "get_table db3 n =
      (case get_table db2 n of Some t \<Rightarrow> Some t
       | None \<Rightarrow> if ''dag_version'' = n then Some dag_version_table else None)" for n
    unfolding db3_def by (simp add: get_table_append)
  have s1: "apply_operation (execute (DELETE_FROM ''serialized_dag'')) db = Inr db1"
    unfolding db1_def using dist unref(1) sd(1) by (rule delete_all_step)
  have "unreferenced db1 ''dag_code''"
    using unref(2) by (simp add: db1_def unreferenced_map)
  moreover have "get_table db1 ''dag_code'' = Some dc"
    by (simp add: g1 dc(1) truncate_table_def names)
  moreover have "distinct (map t_name db1)"
    using dist by (simp add: db1_def o_def)
  ultimately have s2: "apply_operation (execute (DELETE_FROM ''dag_code'')) db1 = Inr db2"
    unfolding db2_def by (intro delete_all_step)
  have "get_table db2 ''dag_version'' = None"
    by (simp add: g2 g1 nodv)
  moreover have "get_table db2 ''dag'' = Some dg"
    by (simp add: g2 g1 dg truncate_table_def names)
  ultimately have s3: "apply_operation create_dag_version db2 = Inr db3"
    unfolding db3_def using dg(2,3) by (rule create_dag_version_step)
  have dv3: "get_table db3 ''dag_version'' = Some dag_version_table"
    by (simp add: g3 g2 g1 nodv)
  have "get_table db3 ''dag_code'' = Some (dc\<lparr>t_rows := []\<rparr>)"
    by (simp add: g3 g2 g1 dc(1) truncate_table_def names)
  then have dc3: "get_table db3 ''dag_code'' = Some old_dagcode_table"
    by (simp only: dc(2))
  have s4: "apply_operation upgrade_dag_code db3 = Inr db4"
    unfolding db4_def using dv3 dc3 by (rule upgrade_dag_code_step)
  have dv4: "get_table db4 ''dag_version'' = Some dag_version_table"
    by (simp add: db4_def get_put_table dv3)
  have "get_table db4 ''serialized_dag'' = Some (sd\<lparr>t_rows := []\<rparr>)"
    by (simp add: db4_def get_put_table g3 g2 g1 sd(1) truncate_table_def names)
  then have sd4: "get_table db4 ''serialized_dag'' = Some old_serialized_table"
    by (simp only: sd(2))
  have s5: "apply_operation upgrade_serialized_dag db4 = Inr db5"
    unfolding db5_def using dv4 sd4 by (rule upgrade_serialized_dag_step)
  have dv5: "get_table db5 ''dag_version'' = Some dag_version_table"
    by (simp add: db5_def get_put_table dv4)
  have ti5: "get_table db5 ''task_instance'' = Some ti"
    by (simp add: db5_def db4_def get_put_table g3 g2 g1 ti truncate_table_def names)
  have s6: "apply_operation upgrade_task_instance db5 = Inr db6"
    unfolding db6_def using dv5 ti5 ti(2) by (rule upgrade_task_instance_step)
  have th6: "get_table db6 ''task_instance_history'' = Some th"
    by (simp add: db6_def db5_def db4_def get_put_table g3 g2 g1 th truncate_table_def names)
  have s7: "apply_operation upgrade_task_instance_history db6 = Inr db7"
    unfolding db7_def using th6 th(2) by (rule upgrade_task_instance_history_step)
  have dr7: "get_table db7 ''dag_run'' = Some dr"
    by (simp add: db7_def db6_def db5_def db4_def get_put_table g3 g2 g1 dr truncate_table_def names)
  have s8: "apply_operation upgrade_dag_run db7 = Inr db8"
    unfolding db8_def using dr7 dr(2) by (rule upgrade_dag_run_step)
  have run: "upgrade db = Inr db8"
    unfolding upgrade_def upgrade_ops_def delete_serdag_and_code_def
    by (simp only: append.simps run.simps s1 s2 s3 s4 s5 s6 s7 s8 sum.case)
  have pointwise: "(if t_name u = ''dag_run'' then upgrade_table dr
       else if t_name u = ''task_instance_history'' then upgrade_table th
       else if t_name u = ''task_instance'' then upgrade_table ti
       else if t_name u = ''serialized_dag'' then upgraded_serialized_table
       else if t_name u = ''dag_code'' then upgraded_dagcode_table
       else truncate_table ''dag_code'' (truncate_table ''serialized_dag'' u)) = upgrade_table u"
    if u: "u \<in> set db" for u
  proof -
    from u dist have g: "get_table db (t_name u) = Some u"
      by (rule distinct_get_table [rotated])
    consider "t_name u = ''dag_run''" | "t_name u = ''task_instance_history''"
      | "t_name u = ''task_instance''" | "t_name u = ''serialized_dag''"
      | "t_name u = ''dag_code''"
      | "t_name u \<notin> {''dag_run'', ''task_instance_history'', ''task_instance'',
          ''serialized_dag'', ''dag_code''}"
      by auto
    then show ?thesis
    proof cases
      case 1
      with g dr(1) have "u = dr" by simp
      with 1 show ?thesis by simp
    next
      case 2
      with g th(1) have "u = th" by simp
      with 2 show ?thesis by simp
    next
      case 3
      with g ti(1) have "u = ti" by simp
      with 3 show ?thesis by simp
    next
      case 4
      then show ?thesis by (simp add: upgrade_table_def)
    next
      case 5
      then show ?thesis by (simp add: upgrade_table_def)
    next
      case 6
      then show ?thesis by (simp add: upgrade_table_def truncate_table_def)
    qed
  qed
  have "db8 = map (\<lambda>u. if t_name u = ''dag_run'' then upgrade_table dr
       else if t_name u = ''task_instance_history'' then upgrade_table th
       else if t_name u = ''task_instance'' then upgrade_table ti
       else if t_name u = ''serialized_dag'' then upgraded_serialized_table
       else if t_name u = ''dag_code'' then upgraded_dagcode_table
       else truncate_table ''dag_code'' (truncate_table ''serialized_dag'' u)) db @ [dag_version_table]"
    unfolding db8_def db7_def db6_def db5_def db4_def db3_def db2_def db1_def
    by (simp add: put_table_def names)
  also have "\<dots> = map upgrade_table db @ [dag_version_table]"
    using pointwise by (simp cong: map_cong)
  finally show ?thesis
    using run by simp
qed

section \<open>The post-upgrade schema\<close>

lemma example_db_pre: "pre_migration example_db"
  by (simp add: pre_migration_def example_db_def has_table_with_def get_table_def
      unreferenced_def old_dagcode_table_def old_serialized_table_def Table_def Column_def
      colnames_def pk_name_def is_key_def)

lemma example_db_described: "as_described example_db"
  by (simp add: as_described_def example_db_def has_table_with_def get_table_def
      old_dagcode_table_def old_serialized_table_def Table_def)

lemma get_upgraded:
  assumes "pre_migration db"
  shows "get_table (map upgrade_table db @ [dag_version_table]) n =
     (if n = ''dag_version'' then Some dag_version_table
      else map_option upgrade_table (get_table db n))"
proof -
  from assms have "get_table db ''dag_version'' = None"
    by (simp add: pre_migration_def)
  moreover have "get_table (map upgrade_table db) n = map_option upgrade_table (get_table db n)"
    by (rule get_table_map) simp
  moreover have "get_table db n = Some t \<Longrightarrow> n \<noteq> ''dag_version''" for t
    using calculation(1) by auto
  ultimately show ?thesis
    by (auto simp: get_table_append split: option.splits)
qed

lemma upgraded_dag_code:
  assumes "pre_migration db"
  shows "get_table (map upgrade_table db @ [dag_version_table]) ''dag_code''
     = Some upgraded_dagcode_table"
proof -
  from assms obtain t where "get_table db ''dag_code'' = Some t"
    by (auto simp: pre_migration_def)
  moreover from this have "t_name t = ''dag_code''"
    by (rule get_table_name)
  ultimately show ?thesis
    by (simp add: get_upgraded [OF assms] upgrade_table_def)
qed

text \<open>
  Claim C7. On a database whose \<^verbatim>\<open>dag_code\<close> and \<^verbatim>\<open>serialized_dag\<close> are as the migration
  describes them, \<^verbatim>\<open>upgrade()\<close> succeeds and rewrites \<^verbatim>\<open>dag_code\<close>: the primary key, which
  was on \<^verbatim>\<open>fileloc_hash\<close>, is on the new column \<^verbatim>\<open>id\<close>; the new column
  \<^verbatim>\<open>dag_version_id\<close> is not null, unique, and a foreign key to \<^verbatim>\<open>dag_version.id\<close> with
  ON DELETE CASCADE; \<^verbatim>\<open>source_code_hash\<close> (32 characters), \<^verbatim>\<open>dag_id\<close> and \<^verbatim>\<open>created_at\<close> are
  added; \<^verbatim>\<open>fileloc_hash\<close> is gone.
\<close>

theorem C7_upgrade_rewrites_dag_code:
  assumes "pre_migration db" "as_described db"
  shows "\<exists>db' t0 t. upgrade db = Inr db' \<and>
     get_table db ''dag_code'' = Some t0 \<and> get_table db' ''dag_code'' = Some t \<and>
     primary_key t0 = [''fileloc_hash''] \<and>
     primary_key t = [''id''] \<and>
     get_column t ''id'' = Some (Column ''id'' (UUIDType False) (Some False) True) \<and>
     get_column t ''dag_version_id''
       = Some (Column ''dag_version_id'' (UUIDType False) (Some False) False) \<and>
     UniqueConstraint ''dag_code_dag_version_id_uq'' [''dag_version_id'']
       \<in> set (t_constraints t) \<and>
     ForeignKeyConstraint ''dag_code_dag_version_id_fkey'' [''dag_version_id'']
         ''dag_version'' [''id''] CASCADE \<in> set (t_constraints t) \<and>
     get_column t ''source_code_hash''
       = Some (Column ''source_code_hash'' (String (Lit 32)) (Some False) False) \<and>
     get_column t ''dag_id'' = Some (Column ''dag_id'' (String (Lit 250)) (Some False) False) \<and>
     get_column t ''created_at''
       = Some ((Column ''created_at'' UtcDateTime (Some False) False)\<lparr>c_default := Some utcnow\<rparr>) \<and>
     ''fileloc_hash'' \<notin> set (colnames t)"
proof -
  from assms(2) obtain t0 where t0: "get_table db ''dag_code'' = Some t0"
      "t0\<lparr>t_rows := []\<rparr> = old_dagcode_table"
    by (auto simp: as_described_def elim: has_table_withE)
  have "t_constraints (t0\<lparr>t_rows := []\<rparr>) = t_constraints old_dagcode_table"
    using t0(2) by simp
  then have "primary_key t0 = primary_key old_dagcode_table"
    by (simp add: primary_key_def)
  then have "primary_key t0 = [''fileloc_hash'']"
    by (simp add: primary_key_def old_dagcode_table_def Table_def Column_def pk_name_def)
  moreover note t0(1)
  moreover have "primary_key upgraded_dagcode_table = [''id'']"
    by (simp add: primary_key_def upgraded_dagcode_table_def)
  moreover have "get_column upgraded_dagcode_table ''id''
      = Some (Column ''id'' (UUIDType False) (Some False) True)"
    "get_column upgraded_dagcode_table ''dag_version_id''
       = Some (Column ''dag_version_id'' (UUIDType False) (Some False) False)"
    "get_column upgraded_dagcode_table ''source_code_hash''
       = Some (Column ''source_code_hash'' (String (Lit 32)) (Some False) False)"
    "get_column upgraded_dagcode_table ''dag_id''
       = Some (Column ''dag_id'' (String (Lit 250)) (Some False) False)"
    "get_column upgraded_dagcode_table ''created_at''
       = Some ((Column ''created_at'' UtcDateTime (Some False) False)\<lparr>c_default := Some utcnow\<rparr>)"
    by (simp_all add: get_column_def upgraded_dagcode_table_def Column_def)
  moreover have "''fileloc_hash'' \<notin> set (colnames upgraded_dagcode_table)"
    by (simp add: colnames_def upgraded_dagcode_table_def Column_def)
  moreover have "UniqueConstraint ''dag_code_dag_version_id_uq'' [''dag_version_id'']
       \<in> set (t_constraints upgraded_dagcode_table)"
    "ForeignKeyConstraint ''dag_code_dag_version_id_fkey'' [''dag_version_id'']
         ''dag_version'' [''id''] CASCADE \<in> set (t_constraints upgraded_dagcode_table)"
    by (simp_all add: upgraded_dagcode_table_def)
  ultimately show ?thesis
    using upgrade_closed_form [OF assms] upgraded_dag_code [OF assms(1)] by simp
qed

theorem C7_upgrade_rewrites_dag_code_witness:
  "pre_migration example_db \<and> as_described example_db \<and>
   (\<exists>db' t0 t. upgrade example_db = Inr db' \<and>
     get_table example_db ''dag_code'' = Some t0 \<and> get_table db' ''dag_code'' = Some t \<and>
     primary_key t0 = [''fileloc_hash''] \<and>
     primary_key t = [''id''] \<and> ''fileloc_hash'' \<notin> set (colnames t))"
  using C7_upgrade_rewrites_dag_code [OF example_db_pre example_db_described]
    example_db_pre example_db_described by blast

lemma upgraded_table:
  assumes "pre_migration db" "get_table db n = Some t"
  shows "get_table (map upgrade_table db @ [dag_version_table]) n = Some (upgrade_table t)"
proof -
  from assms have "n \<noteq> ''dag_version''"
    by (auto simp: pre_migration_def)
  with assms show ?thesis
    by (simp add: get_upgraded)
qed

lemma find_append:
  "find P (xs @ ys) = (case find P xs of Some x \<Rightarrow> Some x | None \<Rightarrow> find P ys)"
  by (induction xs) auto

lemma get_column_None: "get_column t n = None \<longleftrightarrow> n \<notin> set (colnames t)"
  by (auto simp: get_column_def colnames_def find_None_iff)

text \<open>
  Claim C10. The columns of the two rebuilt tables that \<^verbatim>\<open>upgrade()\<close> does not drop survive with
  their type and nullability: \<^verbatim>\<open>fileloc\<close>, \<^verbatim>\<open>last_updated\<close> and \<^verbatim>\<open>source_code\<close> of
  \<^verbatim>\<open>dag_code\<close>; \<^verbatim>\<open>dag_id\<close>, \<^verbatim>\<open>data\<close>, \<^verbatim>\<open>data_compressed\<close>, \<^verbatim>\<open>dag_hash\<close>, \<^verbatim>\<open>last_updated\<close>
  and \<^verbatim>\<open>processor_subdir\<close> of \<^verbatim>\<open>serialized_dag\<close>. Those that no operation names are the
  same column records as before.
\<close>

theorem C10_unnamed_columns_survive:
  assumes "pre_migration db" "as_described db"
  shows "\<exists>db' dc sd dc' sd'. upgrade db = Inr db' \<and>
     get_table db ''dag_code'' = Some dc \<and> get_table db' ''dag_code'' = Some dc' \<and>
     get_table db ''serialized_dag'' = Some sd \<and> get_table db' ''serialized_dag'' = Some sd' \<and>
     (\<forall>n \<in> {''fileloc'', ''last_updated'', ''source_code''}.
        \<exists>c c'. get_column dc n = Some c \<and> get_column dc' n = Some c' \<and>
          c_type c' = c_type c \<and> c_nullable c' = c_nullable c) \<and>
     (\<forall>n \<in> {''dag_id'', ''data'', ''data_compressed'', ''dag_hash'', ''last_updated'',
              ''processor_subdir''}.
        \<exists>c c'. get_column sd n = Some c \<and> get_column sd' n = Some c' \<and>
          c_type c' = c_type c \<and> c_nullable c' = c_nullable c) \<and>
     (\<forall>n \<in> {''fileloc'', ''source_code''}. get_column dc' n = get_column dc n) \<and>
     (\<forall>n \<in> {''data'', ''data_compressed'', ''dag_hash'', ''last_updated'', ''processor_subdir''}.
        get_column sd' n = get_column sd n)"
proof -
  from assms(2) obtain dc where dc: "get_table db ''dag_code'' = Some dc"
      "dc\<lparr>t_rows := []\<rparr> = old_dagcode_table"
    by (auto simp: as_described_def elim: has_table_withE)
  from assms(2) obtain sd where sd: "get_table db ''serialized_dag'' = Some sd"
      "sd\<lparr>t_rows := []\<rparr> = old_serialized_table"
    by (auto simp: as_described_def elim: has_table_withE)
  have "t_columns (dc\<lparr>t_rows := []\<rparr>) = t_columns old_dagcode_table"
    using dc(2) by simp
  then have cdc: "get_column dc n = get_column old_dagcode_table n" for n
    by (simp add: get_column_def)
  have "t_columns (sd\<lparr>t_rows := []\<rparr>) = t_columns old_serialized_table"
    using sd(2) by simp
  then have csd: "get_column sd n = get_column old_serialized_table n" for n
    by (simp add: get_column_def)
  have names: "t_name dc = ''dag_code''" "t_name sd = ''serialized_dag''"
    using dc(1) sd(1) by (auto dest: get_table_name)
  have dc': "get_table (map upgrade_table db @ [dag_version_table]) ''dag_code''
      = Some upgraded_dagcode_table"
    using upgraded_table [OF assms(1) dc(1)] names by (simp add: upgrade_table_def)
  have sd': "get_table (map upgrade_table db @ [dag_version_table]) ''serialized_dag''
      = Some upgraded_serialized_table"
    using upgraded_table [OF assms(1) sd(1)] names by (simp add: upgrade_table_def)
  have 1: "\<forall>n \<in> {''fileloc'', ''last_updated'', ''source_code''}.
        \<exists>c c'. get_column dc n = Some c \<and> get_column upgraded_dagcode_table n = Some c' \<and>
          c_type c' = c_type c \<and> c_nullable c' = c_nullable c"
    unfolding cdc
    by (simp add: get_column_def old_dagcode_table_def upgraded_dagcode_table_def Table_def
        Column_def)
  have 2: "\<forall>n \<in> {''dag_id'', ''data'', ''data_compressed'', ''dag_hash'', ''last_updated'',
              ''processor_subdir''}.
        \<exists>c c'. get_column sd n = Some c \<and> get_column upgraded_serialized_table n = Some c' \<and>
          c_type c' = c_type c \<and> c_nullable c' = c_nullable c"
    unfolding csd
    by (simp add: get_column_def old_serialized_table_def upgraded_serialized_table_def
        Table_def Column_def)
  have 3: "\<forall>n \<in> {''fileloc'', ''source_code''}.
      get_column upgraded_dagcode_table n = get_column dc n"
    unfolding cdc
    by (simp add: get_column_def old_dagcode_table_def upgraded_dagcode_table_def Table_def
        Column_def)
  have 4: "\<forall>n \<in> {''data'', ''data_compressed'', ''dag_hash'', ''last_updated'',
      ''processor_subdir''}. get_column upgraded_serialized_table n = get_column sd n"
    unfolding csd
    by (simp add: get_column_def old_serialized_table_def upgraded_serialized_table_def
        Table_def Column_def)
  show ?thesis
    using upgrade_closed_form [OF assms] dc(1) sd(1) dc' sd' 1 2 3 4 by blast
qed

theorem C10_unnamed_columns_survive_witness:
  "pre_migration example_db \<and> as_described example_db \<and>
   (\<exists>db' dc dc'. upgrade example_db = Inr db' \<and>
     get_table example_db ''dag_code'' = Some dc \<and> get_table db' ''dag_code'' = Some dc' \<and>
     (\<forall>n \<in> {''fileloc'', ''source_code''}. get_column dc' n = get_column dc n))"
  using C10_unnamed_columns_survive [OF example_db_pre example_db_described]
    example_db_pre example_db_described by blast

text \<open>
  Claim C5 says that both \<^verbatim>\<open>task_instance\<close> and \<^verbatim>\<open>task_instance_history\<close> receive
  \<^verbatim>\<open>dag_version_id\<close> as a foreign key to \<^verbatim>\<open>dag_version.id\<close>. On the example database the
  history table has the column after \<^verbatim>\<open>upgrade()\<close> and no foreign key at all: the block for
  \<^verbatim>\<open>task_instance_history\<close> only adds the column.
\<close>

theorem C5_history_has_no_foreign_key:
  "(case upgrade example_db of
      Inl e \<Rightarrow> False
    | Inr db' \<Rightarrow>
        (case get_table db' ''task_instance_history'' of
           None \<Rightarrow> False
         | Some t \<Rightarrow> ''dag_version_id'' \<in> set (colnames t) \<and> foreign_keys t = []))"
  unfolding upgrade_closed_form [OF example_db_pre example_db_described]
  by (simp add: example_db_def get_table_def
      upgrade_table_def old_dagcode_table_def old_serialized_table_def Table_def
      dag_version_table_def foreign_keys_def colnames_def Column_def)

text \<open>
  Claim C5, amended. On a database whose \<^verbatim>\<open>dag_code\<close> and \<^verbatim>\<open>serialized_dag\<close> are as the
  migration describes them, \<^verbatim>\<open>upgrade()\<close> succeeds and adds a nullable \<^verbatim>\<open>dag_version_id\<close> column to
  \<^verbatim>\<open>task_instance\<close> and to \<^verbatim>\<open>task_instance_history\<close>; on \<^verbatim>\<open>task_instance\<close> it is a foreign key
  to \<^verbatim>\<open>dag_version.id\<close> with ON DELETE CASCADE; the constraints of
  \<^verbatim>\<open>task_instance_history\<close> are those it had before, and none points to \<^verbatim>\<open>dag_version\<close>.
\<close>

theorem C5_version_column_on_execution_records:
  assumes "pre_migration db" "as_described db"
  shows "\<exists>db' ti th th0. upgrade db = Inr db' \<and>
     get_table db' ''task_instance'' = Some ti \<and>
     get_table db' ''task_instance_history'' = Some th \<and>
     get_table db ''task_instance_history'' = Some th0 \<and>
     get_column ti ''dag_version_id''
       = Some (Column ''dag_version_id'' (UUIDType False) (Some True) False) \<and>
     ForeignKeyConstraint ''task_instance_dag_version_id_fkey'' [''dag_version_id'']
         ''dag_version'' [''id''] CASCADE \<in> set (t_constraints ti) \<and>
     get_column th ''dag_version_id''
       = Some (Column ''dag_version_id'' (UUIDType False) (Some True) False) \<and>
     t_constraints th = t_constraints th0 \<and>
     (\<forall>k \<in> set (t_constraints th). \<not> references_table k ''dag_version'')"
proof -
  from assms(1) obtain ti where ti: "get_table db ''task_instance'' = Some ti"
      "''dag_version_id'' \<notin> set (colnames ti)"
    by (auto simp: pre_migration_def elim: has_table_withE)
  from assms(1) obtain th where th: "get_table db ''task_instance_history'' = Some th"
      "''dag_version_id'' \<notin> set (colnames th)"
    by (auto simp: pre_migration_def elim: has_table_withE)
  have names: "t_name ti = ''task_instance''" "t_name th = ''task_instance_history''"
    using ti(1) th(1) by (auto dest: get_table_name)
  from assms(1) th(1) have unref: "\<forall>k \<in> set (t_constraints th). \<not> references_table k ''dag_version''"
    by (auto simp: pre_migration_def unreferenced_def dest: get_table_mem)
  have cti: "get_column (upgrade_table ti) ''dag_version_id''
       = Some (Column ''dag_version_id'' (UUIDType False) (Some True) False)"
    using ti(2) get_column_None [of ti "''dag_version_id''"]
    by (simp add: upgrade_table_def names get_column_def find_append Column_def)
  have cth: "get_column (upgrade_table th) ''dag_version_id''
       = Some (Column ''dag_version_id'' (UUIDType False) (Some True) False)"
    using th(2) get_column_None [of th "''dag_version_id''"]
    by (simp add: upgrade_table_def names get_column_def find_append Column_def)
  have fk: "ForeignKeyConstraint ''task_instance_dag_version_id_fkey'' [''dag_version_id'']
         ''dag_version'' [''id''] CASCADE \<in> set (t_constraints (upgrade_table ti))"
    by (simp add: upgrade_table_def names)
  have same: "t_constraints (upgrade_table th) = t_constraints th"
    by (simp add: upgrade_table_def names)
  show ?thesis
    using upgrade_closed_form [OF assms] upgraded_table [OF assms(1) ti(1)]
      upgraded_table [OF assms(1) th(1)] th(1) cti cth fk same unref
    by auto
qed

theorem C5_version_column_on_execution_records_witness:
  "pre_migration example_db \<and> as_described example_db \<and>
   (\<exists>db' ti th. upgrade example_db = Inr db' \<and>
     get_table db' ''task_instance'' = Some ti \<and>
     get_table db' ''task_instance_history'' = Some th \<and>
     ForeignKeyConstraint ''task_instance_dag_version_id_fkey'' [''dag_version_id'']
         ''dag_version'' [''id''] CASCADE \<in> set (t_constraints ti) \<and>
     (\<forall>k \<in> set (t_constraints th). \<not> references_table k ''dag_version''))"
  using C5_version_column_on_execution_records [OF example_db_pre example_db_described]
    example_db_pre example_db_described by blast

section \<open>The purge\<close>

lemma run_append:
  "run (xs @ ys) db = (case run xs db of Inl e \<Rightarrow> Inl e | Inr d \<Rightarrow> run ys d)"
  by (induction xs arbitrary: db) (auto split: sum.splits)

lemma run_take:
  "run xs db = Inr db' \<Longrightarrow> \<exists>d. run (take k xs) db = Inr d"
proof (induction xs arbitrary: db k)
  case Nil
  then show ?case by simp
next
  case (Cons x xs)
  show ?case
  proof (cases k)
    case 0
    then show ?thesis by simp
  next
    case (Suc j)
    from Cons.prems obtain d where d: "apply_operation x db = Inr d" "run xs d = Inr db'"
      by (auto split: sum.splits)
    from Cons.IH [OF d(2)] obtain e where "run (take j xs) d = Inr e"
      by blast
    with d(1) Suc show ?thesis by simp
  qed
qed

lemma batch_apply_name: "batch_apply db b t = Inr t' \<Longrightarrow> t_name t' = t_name t"
  by (cases b) (auto split: if_splits list.splits option.splits)

lemma batch_run_name: "batch_run db bs t = Inr t' \<Longrightarrow> t_name t' = t_name t"
proof (induction bs arbitrary: t)
  case Nil
  then show ?case by simp
next
  case (Cons b bs)
  from Cons.prems obtain u where u: "batch_apply db b t = Inr u" "batch_run db bs u = Inr t'"
    by (auto split: sum.splits)
  from batch_apply_name [OF u(1)] Cons.IH [OF u(2)] show ?case by simp
qed

lemma batch_apply_rows_empty:
  "batch_apply db b t = Inr t' \<Longrightarrow> t_rows t = [] \<Longrightarrow> t_rows t' = []"
  by (cases b) (auto split: if_splits list.splits option.splits)

lemma batch_run_rows_empty:
  "batch_run db bs t = Inr t' \<Longrightarrow> t_rows t = [] \<Longrightarrow> t_rows t' = []"
proof (induction bs arbitrary: t)
  case Nil
  then show ?case by simp
next
  case (Cons b bs)
  from Cons.prems obtain u where u: "batch_apply db b t = Inr u" "batch_run db bs u = Inr t'"
    by (auto split: sum.splits)
  from batch_apply_rows_empty [OF u(1) Cons.prems(2)] Cons.IH [OF u(2)]
  show ?case by simp
qed

lemma rows_of_remove_rows: "rows_of db n = [] \<Longrightarrow> rows_of (remove_rows m db) n = []"
  by (simp add: rows_of_def get_remove_rows split: option.splits)

lemma delete_rows_rows_empty:
  assumes "delete_rows tn P db = Inr db'" "rows_of db n = []"
  shows "rows_of db' n = []"
  using assms
  by (auto simp: delete_rows_def Let_def rows_of_remove_rows split: option.splits if_splits)

text \<open>
  An operation that is not an insert leaves an empty table empty, provided a description
  passed as \<^verbatim>\<open>copy_from\<close> carries the name of the table that is altered.
\<close>

lemma apply_rows_empty:
  assumes "apply_operation x db = Inr db'" "rows_of db n = []"
    and "\<And>tn r. x \<noteq> execute (INSERT_INTO tn r)"
    and "\<And>m s bs. x = batch_alter_table m (Some s) bs \<Longrightarrow> t_name s = m"
  shows "rows_of db' n = []"
proof (cases x)
  case (execute q)
  with assms show ?thesis
    by (cases q) (auto dest: delete_rows_rows_empty)
next
  case (create_table m cols ks)
  with assms(1,2) show ?thesis
    by (auto simp: rows_of_def get_table_append split: if_splits option.splits)
next
  case (batch_alter_table m cf bs)
  with assms(1) obtain t t' where t: "get_table db m = Some t"
    and run: "batch_run db bs (case cf of None \<Rightarrow> t | Some s \<Rightarrow> copy_rows s t) = Inr t'"
    and db': "db' = put_table t' db"
    by (auto split: option.splits sum.splits)
  have base: "t_name (case cf of None \<Rightarrow> t | Some s \<Rightarrow> copy_rows s t) = m"
    using assms(4) batch_alter_table get_table_name [OF t]
    by (auto simp: copy_rows_def split: option.splits)
  have name': "t_name t' = m"
    using batch_run_name [OF run] base by simp
  show ?thesis
  proof (cases "n = m")
    case True
    with assms(2) t have "t_rows t = []"
      by (simp add: rows_of_def)
    then have "t_rows (case cf of None \<Rightarrow> t | Some s \<Rightarrow> copy_rows s t) = []"
      by (simp add: copy_rows_def split: option.splits)
    from batch_run_rows_empty [OF run this] True name' t show ?thesis
      by (simp add: db' rows_of_def get_put_table)
  next
    case False
    with assms(2) name' show ?thesis
      by (simp add: db' rows_of_def get_put_table)
  qed
next
  case (drop_table m)
  with assms(1,2) show ?thesis
    by (auto simp: rows_of_def get_table_filter split: if_splits option.splits)
qed


lemma run_rows_empty:
  assumes "run xs db = Inr db'" "rows_of db n = []"
    and "\<forall>x \<in> set xs. (\<forall>tn r. x \<noteq> execute (INSERT_INTO tn r)) \<and>
           (\<forall>m s bs. x = batch_alter_table m (Some s) bs \<longrightarrow> t_name s = m)"
  shows "rows_of db' n = []"
  using assms
proof (induction xs arbitrary: db)
  case Nil
  then show ?case by simp
next
  case (Cons x xs)
  from Cons.prems(1) obtain d where d: "apply_operation x db = Inr d" "run xs d = Inr db'"
    by (auto split: sum.splits)
  have "rows_of d n = []"
    using d(1) Cons.prems(2)
  proof (rule apply_rows_empty)
    show "x \<noteq> execute (INSERT_INTO tn r)" for tn r
      using Cons.prems(3) by simp
    show "t_name s = m" if "x = batch_alter_table m (Some s) bs" for m s bs
      using Cons.prems(3) that by simp
  qed
  moreover have "\<forall>x \<in> set xs. (\<forall>tn r. x \<noteq> execute (INSERT_INTO tn r)) \<and>
           (\<forall>m s bs. x = batch_alter_table m (Some s) bs \<longrightarrow> t_name s = m)"
    using Cons.prems(3) by simp
  ultimately show ?case
    using d(2) Cons.IH by blast
qed

lemma purge_step:
  assumes "pre_migration db"
  shows "run delete_serdag_and_code db =
     Inr (map (\<lambda>t. if t_name t \<in> {''serialized_dag'', ''dag_code''} then t\<lparr>t_rows := []\<rparr> else t) db)"
proof -
  from assms have dist: "distinct (map t_name db)"
    and unref: "unreferenced db ''serialized_dag''" "unreferenced db ''dag_code''"
    by (simp_all add: pre_migration_def)
  from assms obtain dc where dc: "get_table db ''dag_code'' = Some dc"
    by (auto simp: pre_migration_def)
  from assms obtain sd where sd: "get_table db ''serialized_dag'' = Some sd"
    by (auto simp: pre_migration_def)
  define db1 where "db1 = map (truncate_table ''serialized_dag'') db"
  have s1: "apply_operation (execute (DELETE_FROM ''serialized_dag'')) db = Inr db1"
    unfolding db1_def using dist unref(1) sd(1) by (rule delete_all_step)
  have "get_table db1 ''dag_code'' = map_option (truncate_table ''serialized_dag'') (get_table db ''dag_code'')"
    unfolding db1_def by (rule get_table_map) simp
  then have "get_table db1 ''dag_code'' = Some dc"
    using dc get_table_name [OF dc] by (simp add: truncate_table_def)
  moreover have "unreferenced db1 ''dag_code''"
    using unref(2) by (simp add: db1_def unreferenced_map)
  moreover have "distinct (map t_name db1)"
    using dist by (simp add: db1_def o_def)
  ultimately have s2: "apply_operation (execute (DELETE_FROM ''dag_code'')) db1
      = Inr (map (truncate_table ''dag_code'') db1)"
    by (intro delete_all_step)
  have "map (truncate_table ''dag_code'') db1 =
      map (\<lambda>t. if t_name t \<in> {''serialized_dag'', ''dag_code''} then t\<lparr>t_rows := []\<rparr> else t) db"
    by (simp add: db1_def truncate_table_def)
  with s1 s2 show ?thesis
    by (simp only: delete_serdag_and_code_def run.simps sum.case)
qed

text \<open>
  Claim C3. The purge is the first step of \<^verbatim>\<open>upgrade()\<close> and comes before any change of the
  schema: after the two deletes the database is the one before the migration with the
  rows of \<^verbatim>\<open>serialized_dag\<close> and \<^verbatim>\<open>dag_code\<close> gone and nothing else changed (so \<^verbatim>\<open>dag_version\<close>
  does not exist yet and the two tables have their old shape); whenever a longer prefix
  of \<^verbatim>\<open>upgrade()\<close> runs through, both tables are still without rows after it; and on a
  database whose two tables are as the migration describes them, every prefix runs
  through.
\<close>

theorem C3_purge_runs_first:
  assumes "pre_migration db"
  shows "take 2 upgrade_ops = delete_serdag_and_code \<and>
     run delete_serdag_and_code db =
       Inr (map (\<lambda>t. if t_name t \<in> {''serialized_dag'', ''dag_code''}
                      then t\<lparr>t_rows := []\<rparr> else t) db) \<and>
     (\<forall>k \<ge> 2. \<forall>dbk. run (take k upgrade_ops) db = Inr dbk \<longrightarrow>
        rows_of dbk ''serialized_dag'' = [] \<and> rows_of dbk ''dag_code'' = []) \<and>
     (as_described db \<longrightarrow> (\<forall>k. \<exists>dbk. run (take k upgrade_ops) db = Inr dbk))"
proof -
  define rest where "rest = [create_dag_version, upgrade_dag_code, upgrade_serialized_dag,
    upgrade_task_instance, upgrade_task_instance_history, upgrade_dag_run]"
  define db2 where "db2 = map (\<lambda>t. if t_name t \<in> {''serialized_dag'', ''dag_code''}
                      then t\<lparr>t_rows := []\<rparr> else t) db"
  have ops: "upgrade_ops = delete_serdag_and_code @ rest"
    by (simp add: upgrade_ops_def rest_def)
  have len: "length delete_serdag_and_code = 2"
    by (simp add: delete_serdag_and_code_def)
  have first: "take 2 upgrade_ops = delete_serdag_and_code"
    using len by (simp add: ops)
  have purge: "run delete_serdag_and_code db = Inr db2"
    unfolding db2_def using assms by (rule purge_step)
  have g2: "get_table db2 n = map_option (\<lambda>t. if t_name t \<in> {''serialized_dag'', ''dag_code''}
                      then t\<lparr>t_rows := []\<rparr> else t) (get_table db n)" for n
    unfolding db2_def by (rule get_table_map) simp
  have empty2: "rows_of db2 ''serialized_dag'' = []" "rows_of db2 ''dag_code'' = []"
    by (auto simp: rows_of_def g2 split: option.splits dest: get_table_name)
  have ok: "\<forall>x \<in> set (take j rest). (\<forall>tn r. x \<noteq> execute (INSERT_INTO tn r)) \<and>
           (\<forall>m s bs. x = batch_alter_table m (Some s) bs \<longrightarrow> t_name s = m)" for j
  proof
    fix x assume "x \<in> set (take j rest)"
    then have "x \<in> set rest"
      by (rule in_set_takeD)
    then show "(\<forall>tn r. x \<noteq> execute (INSERT_INTO tn r)) \<and>
           (\<forall>m s bs. x = batch_alter_table m (Some s) bs \<longrightarrow> t_name s = m)"
      by (auto simp: rest_def create_dag_version_def upgrade_dag_code_def
        upgrade_serialized_dag_def upgrade_task_instance_def upgrade_task_instance_history_def
        upgrade_dag_run_def old_dagcode_table_def old_serialized_table_def Table_def)
  qed
  have later: "rows_of dbk ''serialized_dag'' = [] \<and> rows_of dbk ''dag_code'' = []"
    if "2 \<le> k" and runk: "run (take k upgrade_ops) db = Inr dbk" for k dbk
  proof -
    from that(1) have tk: "take k upgrade_ops = delete_serdag_and_code @ take (k - 2) rest"
      by (simp add: ops len)
    from runk have dbk: "run (take (k - 2) rest) db2 = Inr dbk"
      by (simp add: tk run_append purge)
    have "rows_of dbk ''serialized_dag'' = []"
      using dbk empty2(1) ok by (rule run_rows_empty)
    moreover have "rows_of dbk ''dag_code'' = []"
      using dbk empty2(2) ok by (rule run_rows_empty)
    ultimately show ?thesis by simp
  qed
  have through: "\<exists>dbk. run (take k upgrade_ops) db = Inr dbk" if "as_described db" for k
  proof -
    from upgrade_closed_form [OF assms that] have "\<exists>db'. run upgrade_ops db = Inr db'"
      by (simp add: upgrade_def)
    then show ?thesis
      using run_take by blast
  qed
  from first purge later through show ?thesis
    unfolding db2_def by blast
qed

theorem C3_purge_runs_first_witness:
  "pre_migration example_db \<and> as_described example_db \<and>
   rows_of example_db ''dag_code'' \<noteq> [] \<and> rows_of example_db ''serialized_dag'' \<noteq> [] \<and>
   (\<exists>dbk. run (take 5 upgrade_ops) example_db = Inr dbk \<and>
      rows_of dbk ''serialized_dag'' = [] \<and> rows_of dbk ''dag_code'' = [])"
proof -
  have "rows_of example_db ''dag_code'' \<noteq> []" "rows_of example_db ''serialized_dag'' \<noteq> []"
    by (simp_all add: rows_of_def example_db_def get_table_def old_dagcode_table_def
        old_serialized_table_def Table_def)
  moreover have "(2::nat) \<le> 5" by simp
  ultimately show ?thesis
    using C3_purge_runs_first [OF example_db_pre] example_db_pre example_db_described by blast
qed

section \<open>Uniqueness constraints and the rows\<close>

lemma unique_rows_Cons:
  "unique_rows cs (r # rs) \<longleftrightarrow>
     (None \<in> set (cells r cs) \<or> cells r cs \<notin> set (map (\<lambda>q. cells q cs) rs)) \<and>
     unique_rows cs rs"
  by (auto simp: unique_rows_def)

lemma unique_rows_Nil [simp]: "unique_rows cs []"
  by (simp add: unique_rows_def)

lemma unique_rows_filter: "unique_rows cs rs \<Longrightarrow> unique_rows cs (filter P rs)"
  by (induction rs) (auto simp: unique_rows_Cons)

lemma unique_rows_snoc:
  "unique_rows cs (rs @ [r]) \<longleftrightarrow>
     (None \<in> set (cells r cs) \<or> cells r cs \<notin> set (map (\<lambda>q. cells q cs) rs)) \<and>
     unique_rows cs rs"
  by (induction rs) (auto simp: unique_rows_Cons)

lemma unique_rows_at_most_one:
  assumes "unique_rows cs rs" "None \<notin> set vs"
  shows "length (filter (\<lambda>r. cells r cs = vs) rs) \<le> 1"
  using assms
proof (induction rs)
  case Nil
  then show ?case by simp
next
  case (Cons r rs)
  show ?case
  proof (cases "cells r cs = vs")
    case True
    with Cons.prems have "vs \<notin> set (map (\<lambda>q. cells q cs) rs)"
      by (auto simp: unique_rows_Cons)
    then have "filter (\<lambda>r. cells r cs = vs) rs = []"
      by (auto simp: filter_empty_conv)
    with True show ?thesis by simp
  next
    case False
    with Cons show ?thesis
      by (simp add: unique_rows_Cons)
  qed
qed

lemma first_error_None: "first_error es = None \<longleftrightarrow> (\<forall>e \<in> set es. e = None)"
  by (induction es rule: first_error.induct) auto

lemma insert_row_result:
  assumes "insert_row tn r db = Inr db'"
  obtains t where "get_table db tn = Some t"
    "null_violation t r = None" "\<forall>k \<in> set (t_constraints t). row_violation db t r k = None"
    "db' = put_table (t\<lparr>t_rows := t_rows t @ [r]\<rparr>) db"
  using assms
  by (auto simp: insert_row_def first_error_None split: option.splits)

text \<open>
  The statements on rows keep the shape of every table, and they keep the rows of a table
  within a uniqueness constraint that the table declares.
\<close>

lemma execute_sql_unique:
  assumes "execute_sql q db = Inr db'" "get_table db tn = Some t"
    "UniqueConstraint n cs \<in> set (t_constraints t)" "unique_rows cs (t_rows t)"
  shows "\<exists>t'. get_table db' tn = Some t' \<and> t_constraints t' = t_constraints t \<and>
     unique_rows cs (t_rows t')"
proof -
  have del: ?thesis if "delete_rows m P db = Inr db'" for m P
  proof -
    from that obtain ms where "db' = remove_rows ms db"
      by (auto simp: delete_rows_def Let_def split: option.splits if_splits)
    with assms(2-4) show ?thesis
      by (simp add: get_remove_rows unique_rows_filter)
  qed
  show ?thesis
  proof (cases q)
    case (DELETE_FROM m)
    with assms(1) show ?thesis by (auto intro: del)
  next
    case (DELETE_FROM_WHERE m c v)
    with assms(1) show ?thesis by (auto intro: del)
  next
    case (INSERT_INTO m r)
    with assms(1) have "insert_row m r db = Inr db'" by simp
    then obtain u where u: "get_table db m = Some u"
      "\<forall>k \<in> set (t_constraints u). row_violation db u r k = None"
      "db' = put_table (u\<lparr>t_rows := t_rows u @ [r]\<rparr>) db"
      by (rule insert_row_result)
    have um: "t_name u = m"
      using u(1) by (rule get_table_name)
    show ?thesis
    proof (cases "m = tn")
      case True
      with u(1) assms(2) have ut: "u = t" by simp
      from u(2) assms(3) have "row_violation db t r (UniqueConstraint n cs) = None"
        by (auto simp: ut)
      then have "None \<in> set (cells r cs) \<or> cells r cs \<notin> set (map (\<lambda>q. cells q cs) (t_rows t))"
        by (auto split: if_splits)
      with assms(4) have "unique_rows cs (t_rows t @ [r])"
        by (simp add: unique_rows_snoc)
      with True um ut assms(2) show ?thesis
        by (simp add: u(3) get_put_table)
    next
      case False
      with um assms(2-4) show ?thesis
        by (simp add: u(3) get_put_table)
    qed
  qed
qed

lemma execute_all_unique:
  assumes "execute_all qs db = Inr db'" "get_table db tn = Some t"
    "UniqueConstraint n cs \<in> set (t_constraints t)" "unique_rows cs (t_rows t)"
  shows "\<exists>t'. get_table db' tn = Some t' \<and> t_constraints t' = t_constraints t \<and>
     unique_rows cs (t_rows t')"
  using assms
proof (induction qs arbitrary: db t)
  case Nil
  then show ?case by simp
next
  case (Cons q qs)
  from Cons.prems(1) obtain d where d: "execute_sql q db = Inr d" "execute_all qs d = Inr db'"
    by (auto split: sum.splits)
  from execute_sql_unique [OF d(1) Cons.prems(2-4)] obtain u
    where u: "get_table d tn = Some u" "t_constraints u = t_constraints t"
      "unique_rows cs (t_rows u)"
    by blast
  from Cons.IH [OF d(2) u(1) _ u(3)] Cons.prems(3) u(2) show ?case
    by auto
qed

text \<open>A row that repeats the non-NULL values of an existing row under a uniqueness constraint is refused.\<close>

lemma first_error_Some:
  "Some e \<in> set es \<Longrightarrow> \<exists>e'. first_error es = Some e'"
  by (induction es rule: first_error.induct) auto

lemma insert_row_duplicate:
  assumes "get_table db tn = Some t" "UniqueConstraint n cs \<in> set (t_constraints t)"
    "q \<in> set (t_rows t)" "None \<notin> set (cells q cs)" "cells r cs = cells q cs"
  shows "isl (insert_row tn r db)"
proof -
  have "row_violation db t r (UniqueConstraint n cs) = Some (UniqueViolation n)"
    using assms(3-5) by auto
  then have "Some (UniqueViolation n)
      \<in> set (null_violation t r # map (row_violation db t r) (t_constraints t))"
    using assms(2) by force
  from first_error_Some [OF this] show ?thesis
    using assms(1) by (auto simp: insert_row_def)
qed


lemma example_statements_run:
  "\<exists>db''. execute_all example_statements (map upgrade_table example_db @ [dag_version_table])
      = Inr db'' \<and>
     rows_of db'' ''dag_code'' =
       [[(''id'', Some (I 100)), (''fileloc'', Some (S ''/dags/etl.py'')),
         (''last_updated'', Some (I 2)), (''source_code'', Some (S ''pass'')),
         (''dag_version_id'', Some (I 10)), (''source_code_hash'', Some (S ''abc'')),
         (''dag_id'', Some (S ''etl_daily'')), (''created_at'', Some (I 2))]] \<and>
     rows_of db'' ''dag_version'' =
       [[(''id'', Some (I 10)), (''version_number'', Some (I 1)),
         (''dag_id'', Some (S ''etl_daily'')), (''created_at'', Some (I 2)),
         (''last_updated'', Some (I 2))],
        [(''id'', Some (I 11)), (''version_number'', Some (I 2)),
         (''dag_id'', Some (S ''etl_daily'')), (''created_at'', Some (I 3)),
         (''last_updated'', Some (I 3))]]"
  by (simp add: example_statements_def example_db_def upgrade_table_def dag_version_table_def
      upgraded_dagcode_table_def upgraded_serialized_table_def old_dagcode_table_def
      old_serialized_table_def Table_def Column_def insert_row_def get_table_def put_table_def
      null_violation_def cell_def cells_def rows_of_def)

lemma cells_single: "cells r [c] = [v] \<longleftrightarrow> cell r c = v"
  by (simp add: cells_def)

text \<open>
  Claim C1. On a database whose \<^verbatim>\<open>dag_code\<close> and \<^verbatim>\<open>serialized_dag\<close> are as the migration
  describes them, \<^verbatim>\<open>upgrade()\<close> succeeds, and after it each of \<^verbatim>\<open>serialized_dag\<close> and \<^verbatim>\<open>dag_code\<close> declares a
  uniqueness constraint on \<^verbatim>\<open>dag_version_id\<close>. Whatever statements on rows run afterwards,
  the table holds at most one row for any version, and an insert that repeats the
  version of a stored row fails.
\<close>

theorem C1_one_artifact_per_version:
  assumes "pre_migration db" "as_described db" "tn \<in> {''serialized_dag'', ''dag_code''}"
  shows "\<exists>db' t n. upgrade db = Inr db' \<and> get_table db' tn = Some t \<and>
     UniqueConstraint n [''dag_version_id''] \<in> set (t_constraints t) \<and>
     (\<forall>qs db''. execute_all qs db' = Inr db'' \<longrightarrow>
        (\<forall>v. length (filter (\<lambda>r. cell r ''dag_version_id'' = Some v) (rows_of db'' tn)) \<le> 1) \<and>
        (\<forall>q \<in> set (rows_of db'' tn). \<forall>r.
           cell q ''dag_version_id'' \<noteq> None \<longrightarrow>
           cell r ''dag_version_id'' = cell q ''dag_version_id'' \<longrightarrow>
           isl (insert_row tn r db'')))"
proof -
  define db' where "db' = map upgrade_table db @ [dag_version_table]"
  from assms(1,3) obtain t0 where t0: "get_table db tn = Some t0"
    by (auto simp: pre_migration_def)
  define t where "t = upgrade_table t0"
  have t: "get_table db' tn = Some t"
    unfolding db'_def t_def using assms(1) t0 by (rule upgraded_table)
  have name0: "t_name t0 = tn"
    using t0 by (rule get_table_name)
  obtain n where n: "UniqueConstraint n [''dag_version_id''] \<in> set (t_constraints t)"
    and empty: "t_rows t = []"
    using assms(3) name0
    by (auto simp: t_def upgrade_table_def upgraded_dagcode_table_def
        upgraded_serialized_table_def)
  have after: "(\<forall>v. length (filter (\<lambda>r. cell r ''dag_version_id'' = Some v) (rows_of db'' tn)) \<le> 1) \<and>
        (\<forall>q \<in> set (rows_of db'' tn). \<forall>r.
           cell q ''dag_version_id'' \<noteq> None \<longrightarrow>
           cell r ''dag_version_id'' = cell q ''dag_version_id'' \<longrightarrow>
           isl (insert_row tn r db''))"
    if run: "execute_all qs db' = Inr db''" for qs db''
  proof -
    from execute_all_unique [OF run t n] empty obtain t'
      where t': "get_table db'' tn = Some t'" "t_constraints t' = t_constraints t"
        "unique_rows [''dag_version_id''] (t_rows t')"
      by auto
    have rows: "rows_of db'' tn = t_rows t'"
      by (simp add: rows_of_def t'(1))
    have "length (filter (\<lambda>r. cell r ''dag_version_id'' = Some v) (t_rows t')) \<le> 1" for v
      using unique_rows_at_most_one [OF t'(3), of "[Some v]"] by (simp add: cells_single)
    moreover have "isl (insert_row tn r db'')"
      if "q \<in> set (t_rows t')" "cell q ''dag_version_id'' \<noteq> None"
        "cell r ''dag_version_id'' = cell q ''dag_version_id''" for q r
      using t'(1) _ that(1)
    proof (rule insert_row_duplicate)
      show "UniqueConstraint n [''dag_version_id''] \<in> set (t_constraints t')"
        using n t'(2) by simp
      show "None \<notin> set (cells q [''dag_version_id''])"
        using that(2) by (auto simp: cells_def)
      show "cells r [''dag_version_id''] = cells q [''dag_version_id'']"
        using that(3) by (simp add: cells_def)
    qed
    ultimately show ?thesis
      by (simp add: rows)
  qed
  have "upgrade db = Inr db'"
    unfolding db'_def using assms(1,2) by (rule upgrade_closed_form)
  with t n after show ?thesis
    by blast
qed

theorem C1_one_artifact_per_version_witness:
  "pre_migration example_db \<and> as_described example_db \<and>
   (\<exists>db' db''. upgrade example_db = Inr db' \<and>
      execute_all example_statements db' = Inr db'' \<and>
      length (filter (\<lambda>r. cell r ''dag_version_id'' = Some (I 10)) (rows_of db'' ''dag_code'')) = 1 \<and>
      isl (insert_row ''dag_code'' second_source_row db''))"
proof -
  from C1_one_artifact_per_version [OF example_db_pre example_db_described, of "''dag_code''"]
  obtain db' where db': "upgrade example_db = Inr db'"
    and after: "\<And>qs db'' q r. execute_all qs db' = Inr db'' \<Longrightarrow>
        q \<in> set (rows_of db'' ''dag_code'') \<Longrightarrow> cell q ''dag_version_id'' \<noteq> None \<Longrightarrow>
        cell r ''dag_version_id'' = cell q ''dag_version_id'' \<Longrightarrow>
        isl (insert_row ''dag_code'' r db'')"
    by auto
  from db' have "db' = map upgrade_table example_db @ [dag_version_table]"
    by (simp add: upgrade_closed_form [OF example_db_pre example_db_described])
  with example_statements_run obtain db'' where run: "execute_all example_statements db' = Inr db''"
    and rows: "rows_of db'' ''dag_code'' =
       [[(''id'', Some (I 100)), (''fileloc'', Some (S ''/dags/etl.py'')),
         (''last_updated'', Some (I 2)), (''source_code'', Some (S ''pass'')),
         (''dag_version_id'', Some (I 10)), (''source_code_hash'', Some (S ''abc'')),
         (''dag_id'', Some (S ''etl_daily'')), (''created_at'', Some (I 2))]]"
    by auto
  have one: "length (filter (\<lambda>r. cell r ''dag_version_id'' = Some (I 10))
      (rows_of db'' ''dag_code'')) = 1"
    by (simp add: rows cell_def)
  have "isl (insert_row ''dag_code'' second_source_row db'')"
    by (rule after [OF run, of "hd (rows_of db'' ''dag_code'')"])
      (simp_all add: rows cell_def second_source_row_def)
  with db' run one example_db_pre example_db_described show ?thesis
    by blast
qed

text \<open>
  Claim C4. On a database whose \<^verbatim>\<open>dag_code\<close> and \<^verbatim>\<open>serialized_dag\<close> are as the migration
  describes them, \<^verbatim>\<open>upgrade()\<close> succeeds, and after it \<^verbatim>\<open>dag_version\<close> declares a uniqueness constraint on
  \<^verbatim>\<open>(dag_id, version_number)\<close>. Whatever statements on rows run afterwards, no two version
  rows carry the same definition and the same version number, and an insert that
  repeats the pair of a stored row fails.
\<close>

theorem C4_version_number_unique_per_dag:
  assumes "pre_migration db" "as_described db"
  shows "\<exists>db' t. upgrade db = Inr db' \<and> get_table db' ''dag_version'' = Some t \<and>
     UniqueConstraint ''dag_id_v_name_v_number_unique_constraint'' [''dag_id'', ''version_number'']
       \<in> set (t_constraints t) \<and>
     (\<forall>qs db''. execute_all qs db' = Inr db'' \<longrightarrow>
        (\<forall>d v. length (filter (\<lambda>r. cell r ''dag_id'' = Some d \<and> cell r ''version_number'' = Some v)
                   (rows_of db'' ''dag_version'')) \<le> 1) \<and>
        (\<forall>q \<in> set (rows_of db'' ''dag_version''). \<forall>r.
           cell q ''dag_id'' \<noteq> None \<longrightarrow> cell q ''version_number'' \<noteq> None \<longrightarrow>
           cell r ''dag_id'' = cell q ''dag_id'' \<longrightarrow>
           cell r ''version_number'' = cell q ''version_number'' \<longrightarrow>
           isl (insert_row ''dag_version'' r db'')))"
proof -
  define db' where "db' = map upgrade_table db @ [dag_version_table]"
  let ?cs = "[''dag_id'', ''version_number'']"
  let ?n = "''dag_id_v_name_v_number_unique_constraint''"
  have t: "get_table db' ''dag_version'' = Some dag_version_table"
    by (simp add: db'_def get_upgraded [OF assms(1)])
  have n: "UniqueConstraint ?n ?cs \<in> set (t_constraints dag_version_table)"
    and empty: "t_rows dag_version_table = []"
    by (simp_all add: dag_version_table_def)
  have after: "(\<forall>d v. length (filter (\<lambda>r. cell r ''dag_id'' = Some d \<and> cell r ''version_number'' = Some v)
                   (rows_of db'' ''dag_version'')) \<le> 1) \<and>
        (\<forall>q \<in> set (rows_of db'' ''dag_version''). \<forall>r.
           cell q ''dag_id'' \<noteq> None \<longrightarrow> cell q ''version_number'' \<noteq> None \<longrightarrow>
           cell r ''dag_id'' = cell q ''dag_id'' \<longrightarrow>
           cell r ''version_number'' = cell q ''version_number'' \<longrightarrow>
           isl (insert_row ''dag_version'' r db''))"
    if run: "execute_all qs db' = Inr db''" for qs db''
  proof -
    from execute_all_unique [OF run t n] empty obtain t'
      where t': "get_table db'' ''dag_version'' = Some t'"
        "t_constraints t' = t_constraints dag_version_table"
        "unique_rows ?cs (t_rows t')"
      by auto
    have rows: "rows_of db'' ''dag_version'' = t_rows t'"
      by (simp add: rows_of_def t'(1))
    have "length (filter (\<lambda>r. cell r ''dag_id'' = Some d \<and> cell r ''version_number'' = Some v)
        (t_rows t')) \<le> 1" for d v
      using unique_rows_at_most_one [OF t'(3), of "[Some d, Some v]"] by (simp add: cells_def)
    moreover have "isl (insert_row ''dag_version'' r db'')"
      if "q \<in> set (t_rows t')" "cell q ''dag_id'' \<noteq> None" "cell q ''version_number'' \<noteq> None"
        "cell r ''dag_id'' = cell q ''dag_id''"
        "cell r ''version_number'' = cell q ''version_number''" for q r
      using t'(1) _ that(1)
    proof (rule insert_row_duplicate)
      show "UniqueConstraint ?n ?cs \<in> set (t_constraints t')"
        using n t'(2) by simp
      show "None \<notin> set (cells q ?cs)"
        using that(2,3) by (auto simp: cells_def)
      show "cells r ?cs = cells q ?cs"
        using that(4,5) by (simp add: cells_def)
    qed
    ultimately show ?thesis
      by (simp add: rows)
  qed
  have "upgrade db = Inr db'"
    unfolding db'_def using assms(1,2) by (rule upgrade_closed_form)
  with t n after show ?thesis
    by blast
qed

theorem C4_version_number_unique_per_dag_witness:
  "pre_migration example_db \<and> as_described example_db \<and>
   (\<exists>db' db''. upgrade example_db = Inr db' \<and>
      execute_all example_statements db' = Inr db'' \<and>
      length (filter (\<lambda>r. cell r ''dag_id'' = Some (S ''etl_daily'') \<and>
                           cell r ''version_number'' = Some (I 1))
                (rows_of db'' ''dag_version'')) = 1 \<and>
      isl (insert_row ''dag_version'' repeated_version_row db''))"
proof -
  from C4_version_number_unique_per_dag [OF example_db_pre example_db_described]
  obtain db' where db': "upgrade example_db = Inr db'"
    and after: "\<And>qs db'' q r. execute_all qs db' = Inr db'' \<Longrightarrow>
        q \<in> set (rows_of db'' ''dag_version'') \<Longrightarrow>
        cell q ''dag_id'' \<noteq> None \<Longrightarrow> cell q ''version_number'' \<noteq> None \<Longrightarrow>
        cell r ''dag_id'' = cell q ''dag_id'' \<Longrightarrow>
        cell r ''version_number'' = cell q ''version_number'' \<Longrightarrow>
        isl (insert_row ''dag_version'' r db'')"
    by auto
  from db' have "db' = map upgrade_table example_db @ [dag_version_table]"
    by (simp add: upgrade_closed_form [OF example_db_pre example_db_described])
  with example_statements_run obtain db'' where run: "execute_all example_statements db' = Inr db''"
    and rows: "rows_of db'' ''dag_version'' =
       [[(''id'', Some (I 10)), (''version_number'', Some (I 1)),
         (''dag_id'', Some (S ''etl_daily'')), (''created_at'', Some (I 2)),
         (''last_updated'', Some (I 2))],
        [(''id'', Some (I 11)), (''version_number'', Some (I 2)),
         (''dag_id'', Some (S ''etl_daily'')), (''created_at'', Some (I 3)),
         (''last_updated'', Some (I 3))]]"
    by auto
  have one: "length (filter (\<lambda>r. cell r ''dag_id'' = Some (S ''etl_daily'') \<and>
                           cell r ''version_number'' = Some (I 1))
                (rows_of db'' ''dag_version'')) = 1"
    by (simp add: rows cell_def)
  have "isl (insert_row ''dag_version'' repeated_version_row db'')"
    by (rule after [OF run, of "hd (rows_of db'' ''dag_version'')"])
      (simp_all add: rows cell_def repeated_version_row_def)
  with db' run one example_db_pre example_db_described show ?thesis
    by blast
qed

end
